theory Spec2Isabelle
  imports Complex_Main "HOL-Library.Char_ord" "HOL-Library.List_Lexorder"
begin

section \<open>The feedback service of \<open>app.py\<close>\<close>

text \<open>
  A shallow embedding of the Flask application \<open>src/app.py\<close>: the two tables
  (\<open>Store\<close>, \<open>Feedback\<close>), the write endpoints \<open>add_feedback\<close>,
  \<open>resolve_feedback\<close>, \<open>add_store\<close>, the filter builder
  \<open>build_filtered_query\<close> and the read endpoints \<open>get_feedback\<close>,
  \<open>get_metrics\<close>, \<open>get_metrics_trend\<close>.

  Conventions of the embedding.
  \<^item> Python floats (the polarity of TextBlob, SQL \<open>avg\<close>) are real numbers: the
    rounding of IEEE doubles is not modelled, the literals \<open>0.2\<close> and
    \<open>-0.1\<close> are the reals they denote.
  \<^item> Strings are byte strings; the characters of a request are ASCII.
  \<^item> The libraries behind the code (TextBlob, the zero-shot classifier, the clock) are
    parameters of the functions that call them. What the code relies on from
    \<open>datetime.strptime\<close>, \<open>int\<close>, \<open>date + timedelta\<close> and
    the SQLite dialect of SQLAlchemy is written out.
  \<^item> A raised exception that no handler of the code catches is a value \<open>Inl e\<close>;
    the HTTP layer turns it into a status 500 and the transaction is not committed.
\<close>

subsection \<open>Values and exceptions\<close>

datatype exn = TypeError | IndexError | IntegrityError | OverflowError | ClassifierError

text \<open>The Python values handed to \<open>jsonify\<close>: a dict is an association list in
  insertion order (keys are unique).\<close>

datatype pyval =
    PNone
  | PInt int
  | PFloat real
  | PStr string
  | PList "pyval list"
  | PDict "(pyval \<times> pyval) list"

type_synonym response = "pyval \<times> nat"

fun dict_get :: "(pyval \<times> pyval) list \<Rightarrow> pyval \<Rightarrow> pyval option" where
  "dict_get [] k = None"
| "dict_get ((k', v) # kvs) k = (if k' = k then Some v else dict_get kvs k)"

fun dict_set :: "(pyval \<times> pyval) list \<Rightarrow> pyval \<Rightarrow> pyval \<Rightarrow> (pyval \<times> pyval) list" where
  "dict_set [] k v = [(k, v)]"
| "dict_set ((k', v') # kvs) k v = (if k' = k then (k, v) # kvs else (k', v') # dict_set kvs k v)"

definition dict_keys :: "(pyval \<times> pyval) list \<Rightarrow> pyval list" where
  "dict_keys kvs = map fst kvs"

subsection \<open>Decimal formatting\<close>

definition digit_char :: "nat \<Rightarrow> char" where
  "digit_char n = char_of (48 + n)"

fun str_nat :: "nat \<Rightarrow> string" where
  "str_nat n = (if n < 10 then [digit_char n] else str_nat (n div 10) @ [digit_char (n mod 10)])"

declare str_nat.simps [simp del]

definition zfill :: "nat \<Rightarrow> string \<Rightarrow> string" where
  "zfill w s = replicate (w - length s) (CHR ''0'') @ s"

subsection \<open>Dates and timestamps\<close>

record date =
  year :: nat
  month :: nat
  day :: nat

record datetime = date +
  hour :: nat
  minute :: nat
  second :: nat
  microsecond :: nat

definition is_leap :: "nat \<Rightarrow> bool" where
  "is_leap y = (y mod 4 = 0 \<and> (y mod 100 \<noteq> 0 \<or> y mod 400 = 0))"

definition days_in_month :: "nat \<Rightarrow> nat \<Rightarrow> nat" where
  "days_in_month y m =
     (if m = 2 then (if is_leap y then 29 else 28)
      else if m = 4 \<or> m = 6 \<or> m = 9 \<or> m = 11 then 30 else 31)"

text \<open>\<open>datetime.date(y, m, d)\<close> raises ValueError outside these bounds.\<close>

definition valid_date :: "nat \<Rightarrow> nat \<Rightarrow> nat \<Rightarrow> bool" where
  "valid_date y m d =
     (1 \<le> y \<and> y \<le> 9999 \<and> 1 \<le> m \<and> m \<le> 12 \<and> 1 \<le> d \<and> d \<le> days_in_month y m)"

definition is_digit :: "char \<Rightarrow> bool" where
  "is_digit c = (c \<in> set ''0123456789'')"

definition digit_val :: "char \<Rightarrow> nat" where
  "digit_val c = of_char c - 48"

text \<open>
  \<open>datetime.strptime(s, '%Y-%m-%d').date()\<close>; \<open>None\<close> is the ValueError.
  The directives are the regular expressions of \<open>_strptime\<close>:
  \<open>%Y\<close> is four digits, \<open>%m\<close> is \<open>1[0-2]|0[1-9]|[1-9]\<close>,
  \<open>%d\<close> is \<open>3[0-1]|[1-2]\d|0[1-9]|[1-9]| [1-9]\<close>, nothing may follow the
  day, and the date must exist (year 0 and February 30 are ValueErrors).
\<close>

definition month_of :: "string \<Rightarrow> nat option" where
  "month_of s =
     (case s of
        [a] \<Rightarrow> if is_digit a \<and> a \<noteq> CHR ''0'' then Some (digit_val a) else None
      | [a, b] \<Rightarrow>
          if a = CHR ''1'' \<and> b \<in> set ''012'' then Some (10 + digit_val b)
          else if a = CHR ''0'' \<and> is_digit b \<and> b \<noteq> CHR ''0'' then Some (digit_val b)
          else None
      | _ \<Rightarrow> None)"

definition day_of :: "string \<Rightarrow> nat option" where
  "day_of s =
     (case s of
        [a] \<Rightarrow> if is_digit a \<and> a \<noteq> CHR ''0'' then Some (digit_val a) else None
      | [a, b] \<Rightarrow>
          if a = CHR ''3'' \<and> b \<in> set ''01'' then Some (30 + digit_val b)
          else if a \<in> set ''12'' \<and> is_digit b then Some (10 * digit_val a + digit_val b)
          else if a \<in> set ''0 '' \<and> is_digit b \<and> b \<noteq> CHR ''0'' then Some (digit_val b)
          else None
      | _ \<Rightarrow> None)"

definition strptime_date :: "string \<Rightarrow> date option" where
  "strptime_date s =
     (case s of
        y1 # y2 # y3 # y4 # dash # rest \<Rightarrow>
          if is_digit y1 \<and> is_digit y2 \<and> is_digit y3 \<and> is_digit y4 \<and> dash = CHR ''-'' then
            (let y = 1000 * digit_val y1 + 100 * digit_val y2 + 10 * digit_val y3 + digit_val y4;
                 ms = takeWhile (\<lambda>c. c \<noteq> CHR ''-'') rest;
                 ds = drop (Suc (length ms)) rest
             in if length ms = length rest then None
                else (case month_of ms of
                        None \<Rightarrow> None
                      | Some m \<Rightarrow>
                          (case day_of ds of
                             None \<Rightarrow> None
                           | Some d \<Rightarrow>
                               if valid_date y m d
                               then Some \<lparr>year = y, month = m, day = d\<rparr> else None)))
          else None
      | _ \<Rightarrow> None)"

text \<open>\<open>d + timedelta(days=1)\<close>: past \<open>date.max\<close> it raises OverflowError.\<close>

definition add_one_day :: "date \<Rightarrow> exn + date" where
  "add_one_day d =
     (if day d < days_in_month (year d) (month d) then Inr (d\<lparr>day := day d + 1\<rparr>)
      else if month d < 12 then Inr (d\<lparr>month := month d + 1, day := 1\<rparr>)
      else if year d < 9999 then Inr \<lparr>year = year d + 1, month = 1, day = 1\<rparr>
      else Inl OverflowError)"

text \<open>
  The SQLite dialect stores a DateTime as the text
  \<open>YYYY-MM-DD HH:MM:SS.ffffff\<close> and binds a \<open>date\<close> parameter as midnight of
  that day in the same format; SQLite compares the two texts bytewise.
\<close>

definition strftime_ymd :: "'a date_scheme \<Rightarrow> string" where
  "strftime_ymd d =
     zfill 4 (str_nat (year d)) @ ''-'' @ zfill 2 (str_nat (month d)) @ ''-'' @
     zfill 2 (str_nat (day d))"

definition storage_format :: "datetime \<Rightarrow> string" where
  "storage_format t =
     strftime_ymd t @ '' '' @ zfill 2 (str_nat (hour t)) @ '':'' @
     zfill 2 (str_nat (minute t)) @ '':'' @ zfill 2 (str_nat (second t)) @ ''.'' @
     zfill 6 (str_nat (microsecond t))"

definition bind_date :: "date \<Rightarrow> string" where
  "bind_date d = strftime_ymd d @ '' 00:00:00.000000''"

text \<open>\<open>datetime.isoformat()\<close>: the fraction is left out when it is zero.\<close>

definition isoformat :: "datetime \<Rightarrow> string" where
  "isoformat t =
     strftime_ymd t @ ''T'' @ zfill 2 (str_nat (hour t)) @ '':'' @
     zfill 2 (str_nat (minute t)) @ '':'' @ zfill 2 (str_nat (second t)) @
     (if microsecond t = 0 then [] else ''.'' @ zfill 6 (str_nat (microsecond t)))"

subsection \<open>Tables and state\<close>

text \<open>
  The columns of the two models. A nullable column, and an attribute the ORM lets the
  code set to \<open>None\<close>, is an option; \<open>fb_id\<close> and \<open>timestamp\<close> are
  filled by the database at the insert (the primary key, and the column default
  \<open>datetime.utcnow\<close>, which no code path overrides).
\<close>

record Store =
  st_id :: nat
  name :: string
  area :: "string option"

record Feedback =
  fb_id :: nat
  platform :: "string option"
  fb_text :: "string option"
  timestamp :: datetime
  category :: "string option"
  sentiment :: "string option"
  sentiment_score :: "real option"
  store_id :: "int option"
  status :: "string option"

text \<open>The events handed to \<open>socketio.emit\<close>: name and payload.\<close>

type_synonym event = "string \<times> pyval"

record state =
  feedback_table :: "Feedback list"
  store_table :: "Store list"
  emitted :: "event list"

definition init_state :: state where
  "init_state = \<lparr>feedback_table = [], store_table = [], emitted = []\<rparr>"

text \<open>The integer primary key of SQLite: one more than the largest one in the table.\<close>

definition next_id :: "nat list \<Rightarrow> nat" where
  "next_id ids = Suc (fold max ids 0)"

text \<open>
  \<open>db.session.add(obj); db.session.commit()\<close> for a Feedback: the insert fails with
  IntegrityError on a \<open>NULL\<close> in a column declared \<open>nullable=False\<close>
  (\<open>platform\<close>, \<open>text\<close>, \<open>status\<close>); otherwise the row gets its key and the
  default of \<open>timestamp\<close>. The key is returned as \<open>new_feedback.id\<close>.
\<close>

definition commit_feedback :: "datetime \<Rightarrow> state \<Rightarrow> Feedback \<Rightarrow> exn + state \<times> nat" where
  "commit_feedback now s obj =
     (if platform obj = None \<or> fb_text obj = None \<or> status obj = None then Inl IntegrityError
      else
        (let new_id = next_id (map fb_id (feedback_table s));
             row = obj\<lparr>fb_id := new_id, timestamp := now\<rparr>
         in Inr (s\<lparr>feedback_table := feedback_table s @ [row]\<rparr>, new_id)))"

subsection \<open>Ingestion\<close>

text \<open>
  The JSON body of a POST, at the type of the interface: an object whose members
  \<open>platform\<close> and \<open>text\<close> hold a string or \<open>null\<close> and whose member
  \<open>store_id\<close> holds an integer or \<open>null\<close>, each of them possibly absent.
  \<open>request.get_json()\<close> gives \<open>None\<close> for the body \<open>null\<close>.
\<close>

datatype 'a member = Absent | Null | Val 'a

record payload =
  p_platform :: "string member"
  p_text :: "string member"
  p_store_id :: "int member"
  p_name :: "string member"
  p_area :: "string member"

text \<open>\<open>'k' in data\<close>, \<open>data['k']\<close> (on a present key) and \<open>data.get('k')\<close>.\<close>

definition has_key :: "'a member \<Rightarrow> bool" where
  "has_key m = (m \<noteq> Absent)"

definition member_get :: "'a member \<Rightarrow> 'a option" where
  "member_get m = (case m of Val v \<Rightarrow> Some v | _ \<Rightarrow> None)"

definition candidate_labels :: "string list" where
  "candidate_labels = [''Quality of food'', ''Customer service'', ''Speed'', ''Ambience'']"

text \<open>
  \<open>add_feedback\<close>. Its parameters are the libraries it calls: \<open>polarity\<close> is
  \<open>TextBlob(text).sentiment.polarity\<close>, \<open>classifier\<close> is the zero-shot pipeline
  (it returns the lists \<open>result['labels']\<close> and \<open>result['scores']\<close>, or
  raises), \<open>now\<close> is the clock at the insert. \<open>TextBlob(None)\<close> raises
  TypeError. A body with none of the two required keys, an empty object included, is
  answered 400.
\<close>

definition sentiment_of :: "real \<Rightarrow> string" where
  "sentiment_of pol =
     (if pol > 0.2 then ''Positive'' else if pol < - 0.1 then ''Negative'' else ''Neutral'')"

definition added_response :: "nat \<Rightarrow> string \<Rightarrow> real \<Rightarrow> string \<Rightarrow> real \<Rightarrow> response" where
  "added_response new_id cat category_confidence sentiment_label pol =
     (PDict
        [(PStr ''message'', PStr ''Feedback added successfully''),
         (PStr ''id'', PInt (int new_id)),
         (PStr ''analysis'',
          PDict
            [(PStr ''category'', PStr cat),
             (PStr ''category_confidence'', PFloat category_confidence),
             (PStr ''sentiment'', PStr sentiment_label),
             (PStr ''polarity_score'', PFloat pol)])],
      201)"

definition new_feedback_event :: "nat \<Rightarrow> event" where
  "new_feedback_event new_id =
     (''new_feedback'',
      PDict [(PStr ''message'', PStr (''New feedback '' @ str_nat new_id @ '' added''))])"

definition missing_platform_text :: response where
  "missing_platform_text =
     (PDict [(PStr ''error'', PStr ''Missing required data: platform and text'')], 400)"

definition add_feedback ::
  "(string \<Rightarrow> real) \<Rightarrow> (string \<Rightarrow> string list \<Rightarrow> exn + string list \<times> real list) \<Rightarrow>
   datetime \<Rightarrow> state \<Rightarrow> payload option \<Rightarrow> exn + state \<times> response"
where
  "add_feedback polarity classifier now s data =
     (case data of
        None \<Rightarrow> Inr (s, missing_platform_text)
      | Some d \<Rightarrow>
          if \<not> has_key (p_text d) \<or> \<not> has_key (p_platform d) then
            Inr (s, missing_platform_text)
          else
            (case member_get (p_text d) of
               None \<Rightarrow> Inl TypeError
             | Some feedback_text \<Rightarrow>
                 (let pol = polarity feedback_text;
                      sentiment_label = sentiment_of pol
                  in case classifier feedback_text candidate_labels of
                       Inl e \<Rightarrow> Inl e
                     | Inr (labels, scores) \<Rightarrow>
                         (case labels of
                            [] \<Rightarrow> Inl IndexError
                          | cat # _ \<Rightarrow>
                              (case scores of
                                 [] \<Rightarrow> Inl IndexError
                               | category_confidence # _ \<Rightarrow>
                                   (let new_feedback =
                                          \<lparr>fb_id = 0, platform = member_get (p_platform d),
                                           fb_text = member_get (p_text d), timestamp = now,
                                           category = Some cat,
                                           sentiment = Some sentiment_label,
                                           sentiment_score = Some pol,
                                           store_id = member_get (p_store_id d),
                                           status = Some ''New''\<rparr>
                                    in case commit_feedback now s new_feedback of
                                         Inl e \<Rightarrow> Inl e
                                       | Inr (s', new_id) \<Rightarrow>
                                           Inr (s'\<lparr>emitted := emitted s' @ [new_feedback_event new_id]\<rparr>,
                                                added_response new_id cat category_confidence
                                                  sentiment_label pol)))))))"

subsection \<open>Resolution\<close>

text \<open>
  \<open>Feedback.query.get(feedback_id)\<close> finds the row with that primary key; the
  assignment and the commit write \<open>status\<close> of that row.
\<close>

definition query_get :: "state \<Rightarrow> nat \<Rightarrow> Feedback option" where
  "query_get s k = find (\<lambda>f. fb_id f = k) (feedback_table s)"

definition set_status :: "nat \<Rightarrow> string \<Rightarrow> Feedback list \<Rightarrow> Feedback list" where
  "set_status k v rows = map (\<lambda>f. if fb_id f = k then f\<lparr>status := Some v\<rparr> else f) rows"

definition resolve_feedback :: "state \<Rightarrow> nat \<Rightarrow> state \<times> response" where
  "resolve_feedback s feedback_id =
     (case query_get s feedback_id of
        None \<Rightarrow> (s, (PDict [(PStr ''error'', PStr ''Feedback item not found'')], 404))
      | Some feedback_item \<Rightarrow>
          (s\<lparr>feedback_table := set_status feedback_id ''Resolved'' (feedback_table s),
             emitted := emitted s @
               [(''feedback_resolved'', PDict [(PStr ''id'', PInt (int feedback_id))])]\<rparr>,
           (PDict [(PStr ''message'',
                    PStr (''Feedback '' @ str_nat feedback_id @ '' marked as Resolved''))], 200)))"

subsection \<open>Stores\<close>

definition add_store :: "state \<Rightarrow> payload option \<Rightarrow> exn + state \<times> response" where
  "add_store s data =
     (case data of
        None \<Rightarrow> Inr (s, (PDict [(PStr ''error'', PStr ''Missing required data: name'')], 400))
      | Some d \<Rightarrow>
          if \<not> has_key (p_name d) then
            Inr (s, (PDict [(PStr ''error'', PStr ''Missing required data: name'')], 400))
          else
            (case member_get (p_name d) of
               None \<Rightarrow> Inl IntegrityError
             | Some n \<Rightarrow>
                 (let new_id = next_id (map st_id (store_table s));
                      new_store = \<lparr>st_id = new_id, name = n, area = member_get (p_area d)\<rparr>
                  in Inr (s\<lparr>store_table := store_table s @ [new_store]\<rparr>,
                          (PDict [(PStr ''message'', PStr ''Store added''),
                                  (PStr ''id'', PInt (int new_id))], 201)))))"

subsection \<open>Reading a response\<close>

text \<open>The member \<open>k\<close> of the object \<open>analysis\<close> of a response body.\<close>

definition analysis_field :: "response \<Rightarrow> string \<Rightarrow> pyval option" where
  "analysis_field resp k =
     (case fst resp of
        PDict kvs \<Rightarrow>
          (case dict_get kvs (PStr ''analysis'') of
             Some (PDict a) \<Rightarrow> dict_get a (PStr k)
           | _ \<Rightarrow> None)
      | _ \<Rightarrow> None)"

subsection \<open>The states the service can reach\<close>

text \<open>
  The service starts on empty tables (\<open>db.create_all()\<close>) and only the three write
  endpoints change the state; a request that raises leaves it as it was.
\<close>

inductive reachable :: "state \<Rightarrow> bool" where
  reachable_init: "reachable init_state"
| reachable_add_feedback:
    "reachable s \<Longrightarrow> add_feedback polarity classifier now s data = Inr (s', resp) \<Longrightarrow> reachable s'"
| reachable_resolve_feedback:
    "reachable s \<Longrightarrow> resolve_feedback s feedback_id = (s', resp) \<Longrightarrow> reachable s'"
| reachable_add_store:
    "reachable s \<Longrightarrow> add_store s data = Inr (s', resp) \<Longrightarrow> reachable s'"

text \<open>The six attributes the data model requires on every stored row.\<close>

definition fully_annotated :: "Feedback \<Rightarrow> bool" where
  "fully_annotated f =
     (platform f \<noteq> None \<and> fb_text f \<noteq> None \<and> category f \<noteq> None \<and>
      sentiment f \<noteq> None \<and> sentiment_score f \<noteq> None \<and> status f \<noteq> None)"

text \<open>The event and the answer of a resolution that found its row.\<close>

definition feedback_resolved_event :: "nat \<Rightarrow> event" where
  "feedback_resolved_event k = (''feedback_resolved'', PDict [(PStr ''id'', PInt (int k))])"

definition resolved_response :: "nat \<Rightarrow> response" where
  "resolved_response k =
     (PDict [(PStr ''message'', PStr (''Feedback '' @ str_nat k @ '' marked as Resolved''))], 200)"

subsection \<open>The filter builder\<close>

text \<open>The query string of a read request: \<open>request.args.get\<close> of the five
  parameters, \<open>None\<close> when the parameter is absent.\<close>

record args =
  a_start :: "string option"
  a_end :: "string option"
  a_store_id :: "string option"
  a_area :: "string option"
  a_status :: "string option"

text \<open>\<open>if x:\<close> on an optional string: neither \<open>None\<close> nor empty.\<close>

definition truthy :: "string option \<Rightarrow> bool" where
  "truthy x = (case x of None \<Rightarrow> False | Some v \<Rightarrow> v \<noteq> [])"

text \<open>
  \<open>int(s)\<close> on an ASCII string; \<open>None\<close> is the ValueError. Surrounding white
  space (the characters 9 to 13 and the blank) is dropped, a sign may lead, single
  underscores may stand between digits, and more than 4300 digits are refused (the
  default of \<open>sys.int_max_str_digits\<close>, which the application leaves as it is).
\<close>

definition is_space :: "char \<Rightarrow> bool" where
  "is_space c = (let n = (of_char c :: nat) in (9 \<le> n \<and> n \<le> 13) \<or> n = 32)"

definition strip :: "string \<Rightarrow> string" where
  "strip s = rev (dropWhile is_space (rev (dropWhile is_space s)))"

fun int_rest :: "nat \<Rightarrow> string \<Rightarrow> nat option" where
  "int_rest acc [] = Some acc"
| "int_rest acc [c] = (if is_digit c then Some (10 * acc + digit_val c) else None)"
| "int_rest acc (c # d # ds) =
     (if is_digit c then int_rest (10 * acc + digit_val c) (d # ds)
      else if c = CHR ''_'' \<and> is_digit d then int_rest (10 * acc + digit_val d) ds
      else None)"

definition int_body :: "string \<Rightarrow> nat option" where
  "int_body s = (case s of [] \<Rightarrow> None | c # cs \<Rightarrow> if is_digit c then int_rest (digit_val c) cs else None)"

definition max_str_digits :: nat where
  "max_str_digits = 4300"

definition py_int :: "string \<Rightarrow> int option" where
  "py_int s =
     (case strip s of
        [] \<Rightarrow> None
      | c # cs \<Rightarrow>
          (let negative = (c = CHR ''-'');
               body = (if c = CHR ''-'' \<or> c = CHR ''+'' then cs else c # cs)
           in case int_body body of
                None \<Rightarrow> None
              | Some n \<Rightarrow>
                  if length (filter is_digit body) > max_str_digits then None
                  else Some (if negative then - int n else int n)))"

text \<open>
  The parameters on which a byte string shows what Python reads: every character is
  ASCII. Beyond ASCII, \<open>strptime\<close> and \<open>int\<close> accept further digits and white
  space.
\<close>

definition ascii_only :: "string option \<Rightarrow> bool" where
  "ascii_only x =
     (case x of None \<Rightarrow> True | Some v \<Rightarrow> list_all (\<lambda>c. (of_char c :: nat) < 128) v)"

text \<open>
  A query object: the clauses added to \<open>Feedback.query\<close>, in the order of the calls.
  Building it executes nothing.
\<close>

datatype clause =
    JoinStoreArea string
  | TimestampGe date
  | TimestampLt date
  | StoreIdEq int
  | StatusEq string

type_synonym query = "clause list"

text \<open>
  \<open>build_filtered_query\<close>. The result \<open>Inr None\<close> is the \<open>return None\<close> of
  the handler of ValueError; \<open>Inl OverflowError\<close> is the exception of
  \<open>end_date + timedelta(days=1)\<close>, which that handler does not catch.
\<close>

definition build_filtered_query :: "args \<Rightarrow> exn + query option" where
  "build_filtered_query a =
     (let query0 = (if truthy (a_area a) then [JoinStoreArea (the (a_area a))] else [])
      in case (if truthy (a_start a)
               then map_option (\<lambda>start_date. query0 @ [TimestampGe start_date])
                      (strptime_date (the (a_start a)))
               else Some query0) of
           None \<Rightarrow> Inr None
         | Some query1 \<Rightarrow>
             (case (if truthy (a_end a)
                    then (case strptime_date (the (a_end a)) of
                            None \<Rightarrow> Inr None
                          | Some end_date \<Rightarrow>
                              (case add_one_day end_date of
                                 Inl e \<Rightarrow> Inl e
                               | Inr next_day \<Rightarrow> Inr (Some (query1 @ [TimestampLt next_day]))))
                    else Inr (Some query1)) of
                Inl e \<Rightarrow> Inl e
              | Inr None \<Rightarrow> Inr None
              | Inr (Some query2) \<Rightarrow>
                  (case (if truthy (a_store_id a)
                         then map_option (\<lambda>n. query2 @ [StoreIdEq n]) (py_int (the (a_store_id a)))
                         else Some query2) of
                     None \<Rightarrow> Inr None
                   | Some query3 \<Rightarrow>
                       Inr (Some (if truthy (a_status a)
                                  then query3 @ [StatusEq (the (a_status a))]
                                  else query3)))))"

subsection \<open>Executing a query\<close>

text \<open>
  Each clause on the rows selected so far. The join pairs a feedback row with every store
  row whose key is its \<open>store_id\<close>. The two timestamp clauses compare the stored text
  of the timestamp with the text bound for the date.
\<close>

fun apply_clause :: "state \<Rightarrow> clause \<Rightarrow> Feedback list \<Rightarrow> Feedback list" where
  "apply_clause s (JoinStoreArea v) rows =
     concat (map (\<lambda>f. map (\<lambda>st. f)
       (filter (\<lambda>st. store_id f = Some (int (st_id st)) \<and> area st = Some v) (store_table s))) rows)"
| "apply_clause s (TimestampGe d) rows =
     filter (\<lambda>f. bind_date d \<le> storage_format (timestamp f)) rows"
| "apply_clause s (TimestampLt d) rows =
     filter (\<lambda>f. storage_format (timestamp f) < bind_date d) rows"
| "apply_clause s (StoreIdEq n) rows = filter (\<lambda>f. store_id f = Some n) rows"
| "apply_clause s (StatusEq v) rows = filter (\<lambda>f. status f = Some v) rows"

text \<open>The driver refuses to bind an integer outside 64 bits (OverflowError).\<close>

fun bindable :: "clause \<Rightarrow> bool" where
  "bindable (StoreIdEq n) = (- (2 ^ 63) \<le> n \<and> n < 2 ^ 63)"
| "bindable _ = True"

definition execute :: "state \<Rightarrow> query \<Rightarrow> exn + Feedback list" where
  "execute s q =
     (if list_all bindable q then Inr (fold (apply_clause s) q (feedback_table s))
      else Inl OverflowError)"

subsection \<open>Listing\<close>

definition opt_str :: "string option \<Rightarrow> pyval" where
  "opt_str x = (case x of None \<Rightarrow> PNone | Some v \<Rightarrow> PStr v)"

definition opt_int :: "int option \<Rightarrow> pyval" where
  "opt_int x = (case x of None \<Rightarrow> PNone | Some v \<Rightarrow> PInt v)"

definition opt_float :: "real option \<Rightarrow> pyval" where
  "opt_float x = (case x of None \<Rightarrow> PNone | Some v \<Rightarrow> PFloat v)"

definition invalid_date_format :: response where
  "invalid_date_format = (PDict [(PStr ''error'', PStr ''Invalid date format'')], 400)"

definition feedback_dict :: "Feedback \<Rightarrow> pyval" where
  "feedback_dict feedback =
     PDict
       [(PStr ''id'', PInt (int (fb_id feedback))),
        (PStr ''platform'', opt_str (platform feedback)),
        (PStr ''text'', opt_str (fb_text feedback)),
        (PStr ''timestamp'', PStr (isoformat (timestamp feedback))),
        (PStr ''category'', opt_str (category feedback)),
        (PStr ''sentiment'', opt_str (sentiment feedback)),
        (PStr ''sentiment_score'', opt_float (sentiment_score feedback)),
        (PStr ''store_id'', opt_int (store_id feedback)),
        (PStr ''status'', opt_str (status feedback))]"

text \<open>\<open>order_by(Feedback.timestamp.desc())\<close>: rows of one timestamp come in an order
  SQL leaves open; here it is the reverse of the stable ascending sort.\<close>

definition order_by_timestamp_desc :: "Feedback list \<Rightarrow> Feedback list" where
  "order_by_timestamp_desc rows = rev (sort_key (\<lambda>f. storage_format (timestamp f)) rows)"

definition get_feedback :: "state \<Rightarrow> args \<Rightarrow> exn + response" where
  "get_feedback s a =
     (case build_filtered_query a of
        Inl e \<Rightarrow> Inl e
      | Inr None \<Rightarrow> Inr invalid_date_format
      | Inr (Some query) \<Rightarrow>
          (case execute s query of
             Inl e \<Rightarrow> Inl e
           | Inr rows \<Rightarrow>
               Inr (PList (map feedback_dict (order_by_timestamp_desc rows)), 200)))"

subsection \<open>Metrics\<close>

text \<open>
  SQL aggregation. \<open>GROUP BY\<close> makes one group per distinct value of the key, a
  \<open>NULL\<close> key included; the order of the groups is left open by SQL (here: first
  occurrence) unless an \<open>ORDER BY\<close> fixes it. \<open>avg\<close> skips \<open>NULL\<close>s and is
  \<open>NULL\<close> when nothing is left; \<open>count(Feedback.id)\<close> counts the rows.
\<close>

definition sql_avg :: "real option list \<Rightarrow> real option" where
  "sql_avg xs =
     (let ys = concat (map (\<lambda>x. case x of None \<Rightarrow> [] | Some y \<Rightarrow> [y]) xs)
      in if ys = [] then None else Some (sum_list ys / real (length ys)))"

definition category_metrics :: "Feedback list \<Rightarrow> (string option \<times> nat \<times> real option) list" where
  "category_metrics rows =
     map (\<lambda>c. (c, length (filter (\<lambda>f. category f = c) rows),
                 sql_avg (map sentiment_score (filter (\<lambda>f. category f = c) rows))))
       (remdups (map category rows))"

definition sentiment_counts :: "Feedback list \<Rightarrow> (string option \<times> nat) list" where
  "sentiment_counts rows =
     map (\<lambda>v. (v, length (filter (\<lambda>f. sentiment f = v) rows))) (remdups (map sentiment rows))"

definition category_entry :: "nat \<Rightarrow> real option \<Rightarrow> pyval" where
  "category_entry n avg =
     PDict [(PStr ''count'', PInt (int n)), (PStr ''average_sentiment_score'', opt_float avg)]"

definition categories_of :: "(string option \<times> nat \<times> real option) list \<Rightarrow> (pyval \<times> pyval) list" where
  "categories_of groups =
     fold (\<lambda>(c, n, avg) categories. dict_set categories (opt_str c) (category_entry n avg))
       groups []"

definition sentiments_of :: "(string option \<times> nat) list \<Rightarrow> (pyval \<times> pyval) list" where
  "sentiments_of groups =
     fold (\<lambda>(v, n) sentiments.
             if opt_str v \<in> set (dict_keys sentiments)
             then dict_set sentiments (opt_str v) (PInt (int n)) else sentiments)
       groups
       [(PStr ''Positive'', PInt 0), (PStr ''Negative'', PInt 0), (PStr ''Neutral'', PInt 0)]"

definition get_metrics :: "state \<Rightarrow> args \<Rightarrow> exn + response" where
  "get_metrics s a =
     (case build_filtered_query a of
        Inl e \<Rightarrow> Inl e
      | Inr None \<Rightarrow> Inr invalid_date_format
      | Inr (Some query) \<Rightarrow>
          (case execute s query of
             Inl e \<Rightarrow> Inl e
           | Inr rows \<Rightarrow>
               Inr (PDict
                      [(PStr ''total_feedback'', PInt (int (length rows))),
                       (PStr ''feedback_by_sentiment'',
                        PDict (sentiments_of (sentiment_counts rows))),
                       (PStr ''feedback_by_category'',
                        PDict (categories_of (category_metrics rows)))],
                    200)))"

subsection \<open>Trend\<close>

text \<open>The day of a row is the text \<open>strftime('%Y-%m-%d', timestamp)\<close>; the groups
  are ordered by that text, ascending.\<close>

definition day_of_row :: "Feedback \<Rightarrow> string" where
  "day_of_row f = strftime_ymd (timestamp f)"

definition daily_trend :: "Feedback list \<Rightarrow> (string \<times> real option) list" where
  "daily_trend rows =
     map (\<lambda>d. (d, sql_avg (map sentiment_score (filter (\<lambda>f. day_of_row f = d) rows))))
       (sort (remdups (map day_of_row rows)))"

definition trend_entry :: "string \<times> real option \<Rightarrow> pyval" where
  "trend_entry row =
     PDict [(PStr ''date'', PStr (fst row)), (PStr ''average_sentiment'', opt_float (snd row))]"

definition get_metrics_trend :: "state \<Rightarrow> args \<Rightarrow> exn + response" where
  "get_metrics_trend s a =
     (case build_filtered_query a of
        Inl e \<Rightarrow> Inl e
      | Inr None \<Rightarrow> Inr invalid_date_format
      | Inr (Some query) \<Rightarrow>
          (case execute s query of
             Inl e \<Rightarrow> Inl e
           | Inr rows \<Rightarrow> Inr (PList (map trend_entry (daily_trend rows)), 200)))"

text \<open>The member \<open>k\<close> of a response whose body is an object.\<close>

definition body_field :: "response \<Rightarrow> string \<Rightarrow> pyval option" where
  "body_field resp k = (case fst resp of PDict kvs \<Rightarrow> dict_get kvs (PStr k) | _ \<Rightarrow> None)"

subsection \<open>Reading the stored text of a timestamp\<close>

text \<open>
  The fixed-width decimal text of a number, the day of a date as the number
  \<open>YYYYMMDD\<close>, and the timestamps \<open>datetime.utcnow()\<close> can return. They serve
  to state what the comparison of stored texts means for the dates.
\<close>

fun digits :: "nat \<Rightarrow> nat \<Rightarrow> string" where
  "digits 0 n = []"
| "digits (Suc k) n = digits k (n div 10) @ [digit_char (n mod 10)]"

definition yyyymmdd :: "'a date_scheme \<Rightarrow> nat" where
  "yyyymmdd d = year d * 10000 + month d * 100 + day d"

definition valid_timestamp :: "datetime \<Rightarrow> bool" where
  "valid_timestamp t =
     (valid_date (year t) (month t) (day t) \<and> hour t < 24 \<and> minute t < 60 \<and>
      second t < 60 \<and> microsecond t < 1000000)"

section \<open>Properties\<close>

subsection \<open>Ingestion: the sentiment label\<close>

lemma commit_feedback_Inr:
  "commit_feedback now s obj = Inr (s', k) \<Longrightarrow>
     feedback_table s' = feedback_table s @ [obj\<lparr>fb_id := k, timestamp := now\<rparr>] \<and>
     store_table s' = store_table s \<and> emitted s' = emitted s \<and>
     platform obj \<noteq> None \<and> fb_text obj \<noteq> None \<and> status obj \<noteq> None \<and>
     k = next_id (map fb_id (feedback_table s))"
  by (auto simp: commit_feedback_def Let_def split: if_splits)

text \<open>
  Claim C1. An ingestion that is answered 201 for the text \<open>t\<close> appends one row; the
  label stored on that row and the label of the response follow the threshold rule on
  the polarity \<open>polarity t\<close>: Positive above 0.2, Negative below -0.1, Neutral
  otherwise, so also at exactly 0.2 and at exactly -0.1. The stored score and the
  returned score are the polarity itself.
\<close>

theorem add_feedback_sentiment_threshold:
  assumes "p_text d = Val t"
    and "add_feedback polarity classifier now s (Some d) = Inr (s', resp)"
    and "snd resp = 201"
  shows "feedback_table s' \<noteq> [] \<and>
         butlast (feedback_table s') = feedback_table s \<and>
         sentiment (last (feedback_table s')) =
           Some (if polarity t > 0.2 then ''Positive''
                 else if polarity t < - 0.1 then ''Negative'' else ''Neutral'') \<and>
         sentiment_score (last (feedback_table s')) = Some (polarity t) \<and>
         analysis_field resp ''sentiment'' =
           Some (PStr (if polarity t > 0.2 then ''Positive''
                       else if polarity t < - 0.1 then ''Negative'' else ''Neutral'')) \<and>
         analysis_field resp ''polarity_score'' = Some (PFloat (polarity t))"
  using assms
  by (auto simp: add_feedback_def Let_def missing_platform_text_def member_get_def
        sentiment_of_def added_response_def analysis_field_def
      split: if_splits sum.splits list.splits prod.splits option.splits
      dest!: commit_feedback_Inr)

text \<open>The rule at the upper boundary: a text of polarity exactly 0.2 is stored Neutral.\<close>

theorem add_feedback_sentiment_threshold_witness:
  "\<exists>s' resp.
     add_feedback (\<lambda>_. 0.2) (\<lambda>_ ls. Inr (ls, [0.7, 0.1, 0.1, 0.1]))
       \<lparr>year = 2024, month = 1, day = 1, hour = 12, minute = 0, second = 0, microsecond = 0\<rparr>
       init_state
       (Some \<lparr>p_platform = Val ''web'', p_text = Val ''It was fine'', p_store_id = Absent,
              p_name = Absent, p_area = Absent\<rparr>) = Inr (s', resp) \<and>
     snd resp = 201 \<and>
     sentiment (last (feedback_table s')) = Some ''Neutral'' \<and>
     sentiment_score (last (feedback_table s')) = Some 0.2 \<and>
     analysis_field resp ''sentiment'' = Some (PStr ''Neutral'')"
proof -
  let ?d = "\<lparr>p_platform = Val ''web'', p_text = Val ''It was fine'', p_store_id = Absent,
              p_name = Absent, p_area = Absent\<rparr>"
  let ?now = "\<lparr>year = 2024, month = 1, day = 1, hour = 12, minute = 0, second = 0,
                microsecond = 0\<rparr>"
  let ?cls = "\<lambda>(_::string) (ls::string list). (Inr (ls, [0.7, 0.1, 0.1, 0.1]) :: exn + string list \<times> real list)"
  obtain s' resp where run: "add_feedback (\<lambda>_. 0.2) ?cls ?now init_state (Some ?d) = Inr (s', resp)"
    and code: "snd resp = 201"
    by (simp add: add_feedback_def commit_feedback_def has_key_def member_get_def
          candidate_labels_def added_response_def Let_def)
  have ptext: "p_text ?d = Val ''It was fine''" by simp
  from add_feedback_sentiment_threshold [OF ptext run code] run code
  show ?thesis by simp
qed

subsection \<open>What each write endpoint does to the tables\<close>

lemma add_feedback_Inr_cases:
  assumes "add_feedback polarity classifier now s data = Inr (s', resp)"
  shows "(s' = s \<and> resp = missing_platform_text) \<or>
         (\<exists>d t p c cs x xs k.
            data = Some d \<and> p_text d = Val t \<and> p_platform d = Val p \<and>
            classifier t candidate_labels = Inr (c # cs, x # xs) \<and>
            k = next_id (map fb_id (feedback_table s)) \<and>
            feedback_table s' = feedback_table s @
              [\<lparr>fb_id = k, platform = Some p, fb_text = Some t, timestamp = now,
                category = Some c, sentiment = Some (sentiment_of (polarity t)),
                sentiment_score = Some (polarity t), store_id = member_get (p_store_id d),
                status = Some ''New''\<rparr>] \<and>
            store_table s' = store_table s \<and>
            emitted s' = emitted s @ [new_feedback_event k] \<and>
            resp = added_response k c x (sentiment_of (polarity t)) (polarity t))"
  using assms
  by (auto simp: add_feedback_def Let_def member_get_def
      split: if_splits sum.splits list.splits prod.splits option.splits member.splits
      dest!: commit_feedback_Inr)

lemma add_store_feedback_table:
  "add_store s data = Inr (s', resp) \<Longrightarrow> feedback_table s' = feedback_table s"
  by (auto simp: add_store_def Let_def split: option.splits if_splits)

lemma resolve_feedback_feedback_table:
  "resolve_feedback s k = (s', resp) \<Longrightarrow>
     feedback_table s' = feedback_table s \<or>
     feedback_table s' = set_status k ''Resolved'' (feedback_table s)"
  by (auto simp: resolve_feedback_def split: option.splits)

lemma set_status_ids: "map fb_id (set_status k v rows) = map fb_id rows"
  by (induction rows) (auto simp: set_status_def)

lemma set_status_annotated:
  "list_all fully_annotated rows \<Longrightarrow> list_all fully_annotated (set_status k v rows)"
  by (induction rows) (auto simp: set_status_def fully_annotated_def)

lemma fold_max_ge: "a \<le> fold max ids (a::nat)"
  by (induction ids arbitrary: a) (auto intro: order_trans [OF max.cobounded2])

lemma fold_max_upper: "x \<in> set ids \<Longrightarrow> x \<le> fold max ids (a::nat)"
proof (induction ids arbitrary: a)
  case Nil
  then show ?case by simp
next
  case (Cons y ys)
  show ?case
  proof (cases "x = y")
    case True
    have "y \<le> max y a" by simp
    also have "\<dots> \<le> fold max ys (max y a)" by (rule fold_max_ge)
    finally show ?thesis using True by simp
  next
    case False
    with Cons show ?thesis by simp
  qed
qed

lemma next_id_fresh: "next_id ids \<notin> set ids"
  using fold_max_upper [of "next_id ids" ids 0] by (auto simp: next_id_def)

lemma reachable_distinct_ids: "reachable s \<Longrightarrow> distinct (map fb_id (feedback_table s))"
proof (induction rule: reachable.induct)
  case reachable_init
  show ?case by (simp add: init_state_def)
next
  case (reachable_add_feedback s polarity classifier now data s' resp)
  from add_feedback_Inr_cases [OF reachable_add_feedback.hyps(2)] reachable_add_feedback.IH
  show ?case using next_id_fresh [of "map fb_id (feedback_table s)"] by auto
next
  case (reachable_resolve_feedback s feedback_id s' resp)
  from resolve_feedback_feedback_table [OF reachable_resolve_feedback.hyps(2)]
    reachable_resolve_feedback.IH
  show ?case by (auto simp: set_status_ids)
next
  case (reachable_add_store s data s' resp)
  then show ?case by (simp add: add_store_feedback_table)
qed

lemma reachable_annotated: "reachable s \<Longrightarrow> list_all fully_annotated (feedback_table s)"
proof (induction rule: reachable.induct)
  case reachable_init
  show ?case by (simp add: init_state_def)
next
  case (reachable_add_feedback s polarity classifier now data s' resp)
  from add_feedback_Inr_cases [OF reachable_add_feedback.hyps(2)] reachable_add_feedback.IH
  show ?case by (auto simp: fully_annotated_def)
next
  case (reachable_resolve_feedback s feedback_id s' resp)
  from resolve_feedback_feedback_table [OF reachable_resolve_feedback.hyps(2)]
    reachable_resolve_feedback.IH
  show ?case by (auto intro: set_status_annotated)
next
  case (reachable_add_store s data s' resp)
  then show ?case by (simp add: add_store_feedback_table)
qed

lemma set_status_same:
  assumes "distinct (map fb_id rows)"
    and "find (\<lambda>f. fb_id f = k) rows = Some f"
    and "status f = Some v"
  shows "set_status k v rows = rows"
proof -
  from assms(2) have f: "f \<in> set rows" "fb_id f = k"
    by (auto simp: find_Some_iff)
  have "(if fb_id x = k then x\<lparr>status := Some v\<rparr> else x) = x" if "x \<in> set rows" for x
  proof (cases "fb_id x = k")
    case True
    with assms(1) f that have "x = f"
      by (auto simp: distinct_map dest: inj_onD)
    with assms(3) show ?thesis by simp
  next
    case False
    then show ?thesis by simp
  qed
  then show ?thesis
    unfolding set_status_def by (intro map_idI) simp
qed

text \<open>A concrete run used below: one ingestion on the empty tables.\<close>

lemma one_ingestion:
  "add_feedback (\<lambda>_. - 0.5) (\<lambda>_ ls. Inr (rev ls, [0.7, 0.1, 0.1, 0.1]))
     \<lparr>year = 2024, month = 1, day = 1, hour = 12, minute = 0, second = 0, microsecond = 0\<rparr>
     init_state
     (Some \<lparr>p_platform = Val ''web'', p_text = Val ''Service was terrible and slow'',
            p_store_id = Absent, p_name = Absent, p_area = Absent\<rparr>) =
   Inr (\<lparr>feedback_table =
           [\<lparr>fb_id = 1, platform = Some ''web'',
             fb_text = Some ''Service was terrible and slow'',
             timestamp = \<lparr>year = 2024, month = 1, day = 1, hour = 12, minute = 0,
                          second = 0, microsecond = 0\<rparr>,
             category = Some ''Ambience'', sentiment = Some ''Negative'',
             sentiment_score = Some (- 0.5), store_id = None, status = Some ''New''\<rparr>],
         store_table = [], emitted = [new_feedback_event 1]\<rparr>,
        added_response 1 ''Ambience'' 0.7 ''Negative'' (- 0.5))"
  by (simp add: add_feedback_def commit_feedback_def has_key_def member_get_def
        candidate_labels_def Let_def init_state_def next_id_def sentiment_of_def)

subsection \<open>Ingestion: the category\<close>




subsection \<open>Resolution of a resolved item\<close>

text \<open>
  Claim C7. In a state the service can reach, resolving an item whose status is already
  Resolved is answered 200, leaves both tables as they are, and still publishes the event
  \<open>feedback_resolved\<close> with the id of the item. The event and the answer are the
  ones of a first resolution: whatever the status of a found item was, the resolution
  publishes this event and gives this answer.
\<close>

theorem resolve_feedback_idempotent:
  assumes "reachable s"
    and "query_get s k = Some f"
    and "status f = Some ''Resolved''"
  shows "resolve_feedback s k =
           (s\<lparr>emitted := emitted s @ [feedback_resolved_event k]\<rparr>, resolved_response k) \<and>
         snd (resolved_response k) = 200 \<and>
         feedback_resolved_event k = (''feedback_resolved'', PDict [(PStr ''id'', PInt (int k))]) \<and>
         (\<forall>s0 f0. query_get s0 k = Some f0 \<longrightarrow>
            emitted (fst (resolve_feedback s0 k)) = emitted s0 @ [feedback_resolved_event k] \<and>
            snd (resolve_feedback s0 k) = resolved_response k)"
proof -
  from assms(2) have found: "find (\<lambda>f. fb_id f = k) (feedback_table s) = Some f"
    by (simp add: query_get_def)
  have same: "set_status k ''Resolved'' (feedback_table s) = feedback_table s"
    by (rule set_status_same [OF reachable_distinct_ids [OF assms(1)] found assms(3)])
  have "resolve_feedback s k =
          (s\<lparr>emitted := emitted s @ [feedback_resolved_event k]\<rparr>, resolved_response k)"
    using assms(2) same
    by (simp add: resolve_feedback_def feedback_resolved_event_def resolved_response_def)
  moreover have "snd (resolved_response k) = 200"
    by (simp add: resolved_response_def)
  moreover have "feedback_resolved_event k =
      (''feedback_resolved'', PDict [(PStr ''id'', PInt (int k))])"
    by (simp add: feedback_resolved_event_def)
  moreover have "\<forall>s0 f0. query_get s0 k = Some f0 \<longrightarrow>
            emitted (fst (resolve_feedback s0 k)) = emitted s0 @ [feedback_resolved_event k] \<and>
            snd (resolve_feedback s0 k) = resolved_response k"
    by (simp add: resolve_feedback_def feedback_resolved_event_def resolved_response_def)
  ultimately show ?thesis by blast
qed

text \<open>One ingestion and two resolutions of the new item: the second one changes the
  list of published events only.\<close>

theorem resolve_feedback_idempotent_witness:
  "\<exists>s0 s1 r1 f.
     reachable s1 \<and> resolve_feedback s0 1 = (s1, r1) \<and>
     query_get s0 1 \<noteq> None \<and> query_get s1 1 = Some f \<and> status f = Some ''Resolved'' \<and>
     resolve_feedback s1 1 =
       (s1\<lparr>emitted := emitted s1 @ [feedback_resolved_event 1]\<rparr>, resolved_response 1) \<and>
     r1 = resolved_response 1"
proof -
  let ?s0 = "\<lparr>feedback_table =
           [\<lparr>fb_id = 1, platform = Some ''web'',
             fb_text = Some ''Service was terrible and slow'',
             timestamp = \<lparr>year = 2024, month = 1, day = 1, hour = 12, minute = 0,
                          second = 0, microsecond = 0\<rparr>,
             category = Some ''Ambience'', sentiment = Some ''Negative'',
             sentiment_score = Some (- 0.5), store_id = None, status = Some ''New''\<rparr>],
         store_table = [], emitted = [new_feedback_event 1]\<rparr>"
  have r0: "reachable ?s0"
    by (rule reachable_add_feedback [OF reachable_init one_ingestion])
  obtain s1 r1 where step: "resolve_feedback ?s0 1 = (s1, r1)"
    by (cases "resolve_feedback ?s0 1") auto
  have r1: "reachable s1"
    by (rule reachable_resolve_feedback [OF r0 step])
  have q0: "query_get ?s0 1 \<noteq> None"
    by (simp add: query_get_def)
  from step have s1: "s1 = ?s0\<lparr>feedback_table := set_status 1 ''Resolved'' (feedback_table ?s0),
      emitted := emitted ?s0 @ [feedback_resolved_event 1]\<rparr>"
    and resp1: "r1 = resolved_response 1"
    by (auto simp: resolve_feedback_def query_get_def feedback_resolved_event_def
        resolved_response_def)
  obtain f where q1: "query_get s1 1 = Some f" and st: "status f = Some ''Resolved''"
    by (simp add: s1 query_get_def set_status_def)
  from resolve_feedback_idempotent [OF r1 q1 st] r1 step q0 q1 st resp1
  show ?thesis by blast
qed

subsection \<open>The invariant of the stored rows\<close>

text \<open>
  Claim C8. In every state the service can reach, every stored feedback row has a
  platform, a text, a category, a sentiment, a sentiment score and a status, none of them
  null: an ingestion stores a row only with all six set (the insert refuses a null
  platform or text), and a resolution writes the status only.
\<close>

theorem persisted_feedback_non_null:
  assumes "reachable s"
  shows "\<forall>f \<in> set (feedback_table s).
           platform f \<noteq> None \<and> fb_text f \<noteq> None \<and> category f \<noteq> None \<and>
           sentiment f \<noteq> None \<and> sentiment_score f \<noteq> None \<and> status f \<noteq> None"
  using reachable_annotated [OF assms]
  by (simp add: list_all_iff fully_annotated_def)

theorem persisted_feedback_non_null_witness:
  "\<exists>s. reachable s \<and> feedback_table s \<noteq> [] \<and>
       list_all (\<lambda>f. platform f \<noteq> None \<and> fb_text f \<noteq> None \<and> category f \<noteq> None \<and>
                      sentiment f \<noteq> None \<and> sentiment_score f \<noteq> None \<and> status f \<noteq> None)
         (feedback_table s)"
proof -
  let ?s0 = "\<lparr>feedback_table =
           [\<lparr>fb_id = 1, platform = Some ''web'',
             fb_text = Some ''Service was terrible and slow'',
             timestamp = \<lparr>year = 2024, month = 1, day = 1, hour = 12, minute = 0,
                          second = 0, microsecond = 0\<rparr>,
             category = Some ''Ambience'', sentiment = Some ''Negative'',
             sentiment_score = Some (- 0.5), store_id = None, status = Some ''New''\<rparr>],
         store_table = [], emitted = [new_feedback_event 1]\<rparr>"
  have r0: "reachable ?s0"
    by (rule reachable_add_feedback [OF reachable_init one_ingestion])
  have ne: "feedback_table ?s0 \<noteq> []" by simp
  from persisted_feedback_non_null [OF r0] r0 ne
  show ?thesis unfolding list_all_iff by blast
qed

subsection \<open>Empty parameters\<close>

lemma build_filtered_query_blank:
  "build_filtered_query
     \<lparr>a_start = (if x1 = Some [] then None else x1), a_end = (if x2 = Some [] then None else x2),
      a_store_id = (if x3 = Some [] then None else x3),
      a_area = (if x4 = Some [] then None else x4),
      a_status = (if x5 = Some [] then None else x5)\<rparr> =
   build_filtered_query
     \<lparr>a_start = x1, a_end = x2, a_store_id = x3, a_area = x4, a_status = x5\<rparr>"
  by (cases "x1 = Some []"; cases "x2 = Some []"; cases "x3 = Some []";
      cases "x4 = Some []"; cases "x5 = Some []")
    (simp_all add: build_filtered_query_def truthy_def cong: option.case_cong sum.case_cong)

text \<open>
  Claim C10. A request whose parameters \<open>start\<close>, \<open>end\<close>, \<open>store_id\<close>,
  \<open>area\<close>, \<open>status\<close> are given as empty strings, in any combination, builds the
  query of the request that leaves those parameters out, so the three read endpoints
  answer both requests alike. With all five empty the empty query is built, it selects
  every row, and the listing answers 200.
\<close>

theorem empty_parameter_is_absent:
  "build_filtered_query
     \<lparr>a_start = x1, a_end = x2, a_store_id = x3, a_area = x4, a_status = x5\<rparr> =
   build_filtered_query
     \<lparr>a_start = (if x1 = Some [] then None else x1), a_end = (if x2 = Some [] then None else x2),
      a_store_id = (if x3 = Some [] then None else x3),
      a_area = (if x4 = Some [] then None else x4),
      a_status = (if x5 = Some [] then None else x5)\<rparr> \<and>
   get_feedback s \<lparr>a_start = x1, a_end = x2, a_store_id = x3, a_area = x4, a_status = x5\<rparr> =
   get_feedback s
     \<lparr>a_start = (if x1 = Some [] then None else x1), a_end = (if x2 = Some [] then None else x2),
      a_store_id = (if x3 = Some [] then None else x3),
      a_area = (if x4 = Some [] then None else x4),
      a_status = (if x5 = Some [] then None else x5)\<rparr> \<and>
   get_metrics s \<lparr>a_start = x1, a_end = x2, a_store_id = x3, a_area = x4, a_status = x5\<rparr> =
   get_metrics s
     \<lparr>a_start = (if x1 = Some [] then None else x1), a_end = (if x2 = Some [] then None else x2),
      a_store_id = (if x3 = Some [] then None else x3),
      a_area = (if x4 = Some [] then None else x4),
      a_status = (if x5 = Some [] then None else x5)\<rparr> \<and>
   get_metrics_trend s
     \<lparr>a_start = x1, a_end = x2, a_store_id = x3, a_area = x4, a_status = x5\<rparr> =
   get_metrics_trend s
     \<lparr>a_start = (if x1 = Some [] then None else x1), a_end = (if x2 = Some [] then None else x2),
      a_store_id = (if x3 = Some [] then None else x3),
      a_area = (if x4 = Some [] then None else x4),
      a_status = (if x5 = Some [] then None else x5)\<rparr> \<and>
   build_filtered_query
     \<lparr>a_start = Some [], a_end = Some [], a_store_id = Some [], a_area = Some [],
      a_status = Some []\<rparr> = Inr (Some []) \<and>
   execute s [] = Inr (feedback_table s) \<and>
   get_feedback s
     \<lparr>a_start = Some [], a_end = Some [], a_store_id = Some [], a_area = Some [],
      a_status = Some []\<rparr> =
     Inr (PList (map feedback_dict (order_by_timestamp_desc (feedback_table s))), 200)"
proof -
  have e: "execute s [] = Inr (feedback_table s)"
    by (simp add: execute_def)
  have b: "build_filtered_query
     \<lparr>a_start = Some [], a_end = Some [], a_store_id = Some [], a_area = Some [],
      a_status = Some []\<rparr> = Inr (Some [])"
    by (simp add: build_filtered_query_def truthy_def)
  have g: "get_feedback s
     \<lparr>a_start = Some [], a_end = Some [], a_store_id = Some [], a_area = Some [],
      a_status = Some []\<rparr> =
     Inr (PList (map feedback_dict (order_by_timestamp_desc (feedback_table s))), 200)"
    by (simp add: get_feedback_def b e)
  show ?thesis
    unfolding get_feedback_def get_metrics_def get_metrics_trend_def
      build_filtered_query_blank
    using e b g by (simp add: get_feedback_def)
qed

subsection \<open>Dates out of \<open>strptime\<close>\<close>

lemma strptime_date_valid:
  assumes "strptime_date v = Some d"
  shows "valid_date (year d) (month d) (day d)"
proof -
  from assms obtain y m dd where "d = \<lparr>year = y, month = m, day = dd\<rparr>" "valid_date y m dd"
    unfolding strptime_date_def Let_def
    by (auto split: list.splits if_splits option.splits)
  then show ?thesis by simp
qed

lemma strptime_date_nonempty: "strptime_date v = Some d \<Longrightarrow> v \<noteq> []"
  by (auto simp: strptime_date_def)

lemma add_one_day_overflow:
  assumes "valid_date (year d) (month d) (day d)"
    and "add_one_day d = Inl e"
  shows "d = \<lparr>year = 9999, month = 12, day = 31\<rparr> \<and> e = OverflowError"
proof -
  from assms(2) have "\<not> day d < days_in_month (year d) (month d)" "\<not> month d < 12"
    "\<not> year d < 9999" "e = OverflowError"
    by (auto simp: add_one_day_def split: if_splits)
  with assms(1) have "year d = 9999" "month d = 12" "day d = 31" "e = OverflowError"
    by (auto simp: valid_date_def days_in_month_def)
  then show ?thesis by (cases d) simp
qed

lemma strptime_date_max:
  "strptime_date ''9999-12-31'' = Some \<lparr>year = 9999, month = 12, day = 31\<rparr>"
  by (simp add: strptime_date_def is_digit_def digit_val_def month_of_def day_of_def
      valid_date_def days_in_month_def)

subsection \<open>The filter on the last day of the calendar\<close>

text \<open>
  Claim C2, at the end date 9999-12-31. The date is well formed and
  \<open>strptime\<close> accepts it, but \<open>end_date + timedelta(days=1)\<close> raises
  OverflowError, which \<open>except ValueError\<close> does not catch: no filter is built and
  each read endpoint ends in that exception, whatever the tables hold.
\<close>

theorem end_date_max_raises:
  "build_filtered_query
     \<lparr>a_start = None, a_end = Some ''9999-12-31'', a_store_id = None, a_area = None,
      a_status = None\<rparr> = Inl OverflowError \<and>
   get_feedback s
     \<lparr>a_start = None, a_end = Some ''9999-12-31'', a_store_id = None, a_area = None,
      a_status = None\<rparr> = Inl OverflowError \<and>
   get_metrics s
     \<lparr>a_start = None, a_end = Some ''9999-12-31'', a_store_id = None, a_area = None,
      a_status = None\<rparr> = Inl OverflowError \<and>
   get_metrics_trend s
     \<lparr>a_start = None, a_end = Some ''9999-12-31'', a_store_id = None, a_area = None,
      a_status = None\<rparr> = Inl OverflowError"
proof -
  have "build_filtered_query
     \<lparr>a_start = None, a_end = Some ''9999-12-31'', a_store_id = None, a_area = None,
      a_status = None\<rparr> = Inl OverflowError"
    by (simp add: build_filtered_query_def truthy_def strptime_date_max add_one_day_def
        days_in_month_def)
  then show ?thesis
    by (simp add: get_feedback_def get_metrics_def get_metrics_trend_def)
qed

subsection \<open>Malformed parameters\<close>

text \<open>
  Claim C3 as stated fails in two ways. The empty string is not a date, yet a request
  with \<open>start=\<close> is answered 200 with the rows of the table. And with
  \<open>end=9999-12-31\<close> the request \<open>store_id=abc\<close> does not reach the check of
  \<open>store_id\<close>: it ends in the OverflowError of the end date, which is no validation
  error.
\<close>

theorem malformed_parameter_counterexample:
  "strptime_date [] = None \<and>
   get_feedback
     \<lparr>feedback_table =
        [\<lparr>fb_id = 1, platform = Some ''web'', fb_text = Some ''Service was terrible and slow'',
          timestamp = \<lparr>year = 2024, month = 1, day = 1, hour = 12, minute = 0,
                       second = 0, microsecond = 0\<rparr>,
          category = Some ''Ambience'', sentiment = Some ''Negative'',
          sentiment_score = Some (- 0.5), store_id = None, status = Some ''New''\<rparr>],
      store_table = [], emitted = [new_feedback_event 1]\<rparr>
     \<lparr>a_start = Some [], a_end = None, a_store_id = None, a_area = None, a_status = None\<rparr> =
   Inr (PList
          [feedback_dict
             \<lparr>fb_id = 1, platform = Some ''web'',
              fb_text = Some ''Service was terrible and slow'',
              timestamp = \<lparr>year = 2024, month = 1, day = 1, hour = 12, minute = 0,
                           second = 0, microsecond = 0\<rparr>,
              category = Some ''Ambience'', sentiment = Some ''Negative'',
              sentiment_score = Some (- 0.5), store_id = None, status = Some ''New''\<rparr>],
        200) \<and>
   py_int ''abc'' = None \<and>
   get_feedback init_state
     \<lparr>a_start = None, a_end = Some ''9999-12-31'', a_store_id = Some ''abc'', a_area = None,
      a_status = None\<rparr> = Inl OverflowError"
proof -
  have "py_int ''abc'' = None"
    by (simp add: py_int_def strip_def is_space_def int_body_def is_digit_def)
  moreover have "get_feedback init_state
     \<lparr>a_start = None, a_end = Some ''9999-12-31'', a_store_id = Some ''abc'', a_area = None,
      a_status = None\<rparr> = Inl OverflowError"
    by (simp add: get_feedback_def build_filtered_query_def truthy_def strptime_date_max
        add_one_day_def days_in_month_def)
  ultimately show ?thesis
    by (simp add: strptime_date_def get_feedback_def build_filtered_query_def truthy_def
        execute_def order_by_timestamp_desc_def)
qed

text \<open>
  Claim C3, amended. Take a read request whose \<open>start\<close>, \<open>end\<close> and
  \<open>store_id\<close> are ASCII. When \<open>start\<close> or \<open>end\<close> is a non-empty string
  that \<open>strptime\<close> rejects, or \<open>store_id\<close> is a non-empty string that
  \<open>int\<close> rejects, no query is built and each read endpoint answers 400 with the body
  \<open>Invalid date format\<close> and no rows. Left out is the one case in which the request
  raises before it is through the checks: \<open>end\<close> is the last day of the calendar and
  \<open>start\<close> is not itself rejected.
\<close>

theorem malformed_parameter_rejected:
  assumes "ascii_only (a_start a) \<and> ascii_only (a_end a) \<and> ascii_only (a_store_id a)"
    and "(\<exists>v. a_start a = Some v \<and> v \<noteq> [] \<and> strptime_date v = None) \<or>
         (\<exists>v. a_end a = Some v \<and> v \<noteq> [] \<and> strptime_date v = None) \<or>
         (\<exists>v. a_store_id a = Some v \<and> v \<noteq> [] \<and> py_int v = None)"
    and "(\<exists>v. a_start a = Some v \<and> v \<noteq> [] \<and> strptime_date v = None) \<or>
         \<not> (\<exists>v. a_end a = Some v \<and>
                strptime_date v = Some \<lparr>year = 9999, month = 12, day = 31\<rparr>)"
  shows "build_filtered_query a = Inr None \<and>
         get_feedback s a = Inr invalid_date_format \<and>
         get_metrics s a = Inr invalid_date_format \<and>
         get_metrics_trend s a = Inr invalid_date_format \<and>
         invalid_date_format = (PDict [(PStr ''error'', PStr ''Invalid date format'')], 400)"
proof -
  have bad_start: "build_filtered_query a = Inr None"
    if "a_start a = Some v" "v \<noteq> []" "strptime_date v = None" for v
    using that by (simp add: build_filtered_query_def truthy_def)
  have "build_filtered_query a = Inr None"
  proof (cases "\<exists>v. a_start a = Some v \<and> v \<noteq> [] \<and> strptime_date v = None")
    case True
    with bad_start show ?thesis by blast
  next
    case False
    with assms(3) have not_last: "\<not> (\<exists>v. a_end a = Some v \<and>
                strptime_date v = Some \<lparr>year = 9999, month = 12, day = 31\<rparr>)"
      by blast
    have no_overflow: "add_one_day d \<noteq> Inl e"
      if "truthy (a_end a)" "strptime_date (the (a_end a)) = Some d" for d e
    proof -
      from that(1) obtain v where v: "a_end a = Some v"
        by (auto simp: truthy_def split: option.splits)
      with that(2) not_last have "d \<noteq> \<lparr>year = 9999, month = 12, day = 31\<rparr>"
        by auto
      with add_one_day_overflow [OF strptime_date_valid [OF that(2)], of e]
      show ?thesis by auto
    qed
    have bad_end: "build_filtered_query a = Inr None"
      if "a_end a = Some v" "v \<noteq> []" "strptime_date v = None" for v
      using that by (simp add: build_filtered_query_def truthy_def split: option.splits)
    have bad_store_id: "build_filtered_query a = Inr None"
      if "a_store_id a = Some v" "v \<noteq> []" "py_int v = None" for v
      using that
      apply (simp add: build_filtered_query_def truthy_def split: option.splits sum.splits)
      using no_overflow by (fastforce simp: truthy_def)
    from assms(2) False bad_end bad_store_id show ?thesis by blast
  qed
  then show ?thesis
    by (simp add: get_feedback_def get_metrics_def get_metrics_trend_def
        invalid_date_format_def)
qed

text \<open>
  Three requests: \<open>start=not-a-date\<close>; \<open>start=not-a-date\<close> with the last day of
  the calendar as \<open>end\<close>; and a \<open>store_id\<close> of the character 28 before the digit
  5, which \<open>int\<close> does not take for white space.
\<close>

theorem malformed_parameter_rejected_witness:
  "strptime_date ''not-a-date'' = None \<and>
   get_feedback init_state
     \<lparr>a_start = Some ''not-a-date'', a_end = None, a_store_id = None, a_area = None,
      a_status = None\<rparr> = Inr (PDict [(PStr ''error'', PStr ''Invalid date format'')], 400) \<and>
   get_feedback init_state
     \<lparr>a_start = Some ''not-a-date'', a_end = Some ''9999-12-31'', a_store_id = None,
      a_area = None, a_status = None\<rparr> =
     Inr (PDict [(PStr ''error'', PStr ''Invalid date format'')], 400) \<and>
   py_int [CHR 0x1C, CHR ''5''] = None \<and>
   get_feedback init_state
     \<lparr>a_start = None, a_end = None, a_store_id = Some [CHR 0x1C, CHR ''5''], a_area = None,
      a_status = None\<rparr> = Inr (PDict [(PStr ''error'', PStr ''Invalid date format'')], 400)"
proof -
  let ?a = "\<lparr>a_start = Some ''not-a-date'', a_end = None, a_store_id = None, a_area = None,
      a_status = None\<rparr>"
  let ?b = "\<lparr>a_start = Some ''not-a-date'', a_end = Some ''9999-12-31'', a_store_id = None,
      a_area = None, a_status = None\<rparr>"
  let ?c = "\<lparr>a_start = None, a_end = None, a_store_id = Some [CHR 0x1C, CHR ''5''],
      a_area = None, a_status = None\<rparr>"
  have bad: "strptime_date ''not-a-date'' = None"
    by (simp add: strptime_date_def is_digit_def)
  have bad_int: "py_int [CHR 0x1C, CHR ''5''] = None"
    by (simp add: py_int_def strip_def is_space_def int_body_def is_digit_def)
  have a1: "ascii_only (a_start ?a) \<and> ascii_only (a_end ?a) \<and> ascii_only (a_store_id ?a)"
    by (simp add: ascii_only_def)
  have a2: "(\<exists>v. a_start ?a = Some v \<and> v \<noteq> [] \<and> strptime_date v = None) \<or>
           (\<exists>v. a_end ?a = Some v \<and> v \<noteq> [] \<and> strptime_date v = None) \<or>
           (\<exists>v. a_store_id ?a = Some v \<and> v \<noteq> [] \<and> py_int v = None)"
    using bad by simp
  have a3: "(\<exists>v. a_start ?a = Some v \<and> v \<noteq> [] \<and> strptime_date v = None) \<or>
         \<not> (\<exists>v. a_end ?a = Some v \<and>
                strptime_date v = Some \<lparr>year = 9999, month = 12, day = 31\<rparr>)"
    using bad by simp
  have b1: "ascii_only (a_start ?b) \<and> ascii_only (a_end ?b) \<and> ascii_only (a_store_id ?b)"
    by (simp add: ascii_only_def)
  have b2: "(\<exists>v. a_start ?b = Some v \<and> v \<noteq> [] \<and> strptime_date v = None) \<or>
           (\<exists>v. a_end ?b = Some v \<and> v \<noteq> [] \<and> strptime_date v = None) \<or>
           (\<exists>v. a_store_id ?b = Some v \<and> v \<noteq> [] \<and> py_int v = None)"
    using bad by simp
  have b3: "(\<exists>v. a_start ?b = Some v \<and> v \<noteq> [] \<and> strptime_date v = None) \<or>
         \<not> (\<exists>v. a_end ?b = Some v \<and>
                strptime_date v = Some \<lparr>year = 9999, month = 12, day = 31\<rparr>)"
    using bad by simp
  have c1: "ascii_only (a_start ?c) \<and> ascii_only (a_end ?c) \<and> ascii_only (a_store_id ?c)"
    by (simp add: ascii_only_def)
  have c2: "(\<exists>v. a_start ?c = Some v \<and> v \<noteq> [] \<and> strptime_date v = None) \<or>
           (\<exists>v. a_end ?c = Some v \<and> v \<noteq> [] \<and> strptime_date v = None) \<or>
           (\<exists>v. a_store_id ?c = Some v \<and> v \<noteq> [] \<and> py_int v = None)"
    using bad_int by simp
  have c3: "(\<exists>v. a_start ?c = Some v \<and> v \<noteq> [] \<and> strptime_date v = None) \<or>
         \<not> (\<exists>v. a_end ?c = Some v \<and>
                strptime_date v = Some \<lparr>year = 9999, month = 12, day = 31\<rparr>)"
    by simp
  from malformed_parameter_rejected [OF a1 a2 a3, of init_state]
    malformed_parameter_rejected [OF b1 b2 b3, of init_state]
    malformed_parameter_rejected [OF c1 c2 c3, of init_state] bad bad_int
  show ?thesis by simp
qed

subsection \<open>Dictionaries\<close>

lemma dict_get_set: "dict_get (dict_set d k v) k' = (if k' = k then Some v else dict_get d k')"
  by (induction d) auto

lemma dict_keys_set:
  "dict_keys (dict_set d k v) = (if k \<in> set (dict_keys d) then dict_keys d else dict_keys d @ [k])"
  by (induction d) (force simp: dict_keys_def)+

subsection \<open>Aggregates\<close>

lemma sql_avg_non_null:
  assumes "\<forall>f \<in> set rows. sentiment_score f \<noteq> None"
    and "rows \<noteq> []"
  shows "sql_avg (map sentiment_score rows) =
         Some (sum_list (map (the \<circ> sentiment_score) rows) / real (length rows))"
proof -
  have "concat (map (\<lambda>x. case x of None \<Rightarrow> [] | Some y \<Rightarrow> [y]) (map sentiment_score rows)) =
        map (the \<circ> sentiment_score) rows"
    using assms(1) by (induction rows) auto
  with assms(2) show ?thesis
    by (simp add: sql_avg_def)
qed

lemma group_rows_nonempty: "c \<in> key ` set rows \<Longrightarrow> filter (\<lambda>f. key f = c) rows \<noteq> []"
  by (auto simp: filter_empty_conv)

subsection \<open>Counts by sentiment\<close>

lemma sentiments_fold:
  assumes "distinct (map fst groups)"
  shows "fold (\<lambda>(v, n) sentiments.
             if opt_str v \<in> set (dict_keys sentiments)
             then dict_set sentiments (opt_str v) (PInt (int n)) else sentiments)
           groups
           [(PStr ''Positive'', PInt x), (PStr ''Negative'', PInt y), (PStr ''Neutral'', PInt z)] =
         [(PStr ''Positive'',
           PInt (case map_of groups (Some ''Positive'') of None \<Rightarrow> x | Some n \<Rightarrow> int n)),
          (PStr ''Negative'',
           PInt (case map_of groups (Some ''Negative'') of None \<Rightarrow> y | Some n \<Rightarrow> int n)),
          (PStr ''Neutral'',
           PInt (case map_of groups (Some ''Neutral'') of None \<Rightarrow> z | Some n \<Rightarrow> int n))]"
  using assms
proof (induction groups arbitrary: x y z)
  case Nil
  show ?case by simp
next
  case (Cons g groups)
  obtain v n where g: "g = (v, n)" by (cases g)
  from Cons.prems g have fresh: "map_of groups v = None" and d: "distinct (map fst groups)"
    by (auto simp: map_of_eq_None_iff)
  show ?case
  proof (cases v)
    case None
    with g Cons.IH [OF d] show ?thesis
      by (simp add: dict_keys_def opt_str_def)
  next
    case (Some name)
    with g fresh Cons.IH [OF d] show ?thesis
      by (auto simp: dict_keys_def opt_str_def)
  qed
qed

lemma map_of_sentiment_counts:
  "map_of (sentiment_counts rows) v =
     (if v \<in> sentiment ` set rows then Some (length (filter (\<lambda>f. sentiment f = v) rows)) else None)"
  by (simp add: sentiment_counts_def map_of_map_restrict restrict_map_def)

lemma sentiments_of_counts:
  "sentiments_of (sentiment_counts rows) =
     [(PStr ''Positive'', PInt (int (length (filter (\<lambda>f. sentiment f = Some ''Positive'') rows)))),
      (PStr ''Negative'', PInt (int (length (filter (\<lambda>f. sentiment f = Some ''Negative'') rows)))),
      (PStr ''Neutral'', PInt (int (length (filter (\<lambda>f. sentiment f = Some ''Neutral'') rows))))]"
proof -
  have d: "distinct (map fst (sentiment_counts rows))"
    by (simp add: sentiment_counts_def comp_def)
  have zero: "length (filter (\<lambda>f. sentiment f = v) rows) = 0" if "v \<notin> sentiment ` set rows" for v
    using that by (auto simp: filter_empty_conv)
  show ?thesis
    unfolding sentiments_of_def sentiments_fold [OF d]
    by (simp add: map_of_sentiment_counts zero)
qed

text \<open>
  Claim C5. Whatever rows the filter selects, none included, the member
  \<open>feedback_by_sentiment\<close> of the metrics is the object with exactly the keys
  Positive, Negative, Neutral, each with the number of selected rows of that sentiment,
  0 when there is none.
\<close>

theorem feedback_by_sentiment_three_keys:
  assumes "build_filtered_query a = Inr (Some q)"
    and "execute s q = Inr rows"
  shows "\<exists>body.
           get_metrics s a = Inr (body, 200) \<and>
           body_field (body, 200) ''feedback_by_sentiment'' =
             Some (PDict
               [(PStr ''Positive'',
                 PInt (int (length (filter (\<lambda>f. sentiment f = Some ''Positive'') rows)))),
                (PStr ''Negative'',
                 PInt (int (length (filter (\<lambda>f. sentiment f = Some ''Negative'') rows)))),
                (PStr ''Neutral'',
                 PInt (int (length (filter (\<lambda>f. sentiment f = Some ''Neutral'') rows))))])"
  using assms
  by (simp add: get_metrics_def body_field_def sentiments_of_counts)

text \<open>On empty tables the three counts are 0.\<close>

theorem feedback_by_sentiment_three_keys_witness:
  "\<exists>body.
     get_metrics init_state
       \<lparr>a_start = None, a_end = None, a_store_id = None, a_area = None, a_status = None\<rparr> =
       Inr (body, 200) \<and>
     body_field (body, 200) ''feedback_by_sentiment'' =
       Some (PDict [(PStr ''Positive'', PInt 0), (PStr ''Negative'', PInt 0),
                    (PStr ''Neutral'', PInt 0)])"
proof -
  let ?a = "\<lparr>a_start = None, a_end = None, a_store_id = None, a_area = None, a_status = None\<rparr>"
  have b: "build_filtered_query ?a = Inr (Some [])"
    by (simp add: build_filtered_query_def truthy_def)
  have e: "execute init_state [] = Inr []"
    by (simp add: execute_def init_state_def)
  from feedback_by_sentiment_three_keys [OF b e]
  show ?thesis by simp
qed

subsection \<open>Metrics by category\<close>

lemma categories_fold_other:
  assumes "k \<notin> opt_str ` fst ` set groups"
  shows "dict_get
           (fold (\<lambda>(c, n, avg) categories. dict_set categories (opt_str c) (category_entry n avg))
              groups d) k = dict_get d k"
  using assms by (induction groups arbitrary: d) (auto simp: dict_get_set)

lemma opt_str_inj: "opt_str x = opt_str y \<Longrightarrow> x = y"
  by (auto simp: opt_str_def split: option.splits)

lemma categories_fold_get:
  assumes "distinct (map fst groups)"
    and "(c, n, avg) \<in> set groups"
  shows "dict_get
           (fold (\<lambda>(c, n, avg) categories. dict_set categories (opt_str c) (category_entry n avg))
              groups d) (opt_str c) = Some (category_entry n avg)"
  using assms
proof (induction groups arbitrary: d)
  case Nil
  then show ?case by simp
next
  case (Cons g groups)
  show ?case
  proof (cases "g = (c, n, avg)")
    case True
    with Cons.prems(1) have "c \<notin> fst ` set groups" by auto
    then have "opt_str c \<notin> opt_str ` fst ` set groups"
      by (auto dest: opt_str_inj)
    from categories_fold_other [OF this] True show ?thesis
      by (simp add: dict_get_set)
  next
    case False
    with Cons.prems have "distinct (map fst groups)" "(c, n, avg) \<in> set groups" by auto
    from Cons.IH [OF this] show ?thesis by simp
  qed
qed

lemma categories_fold_keys:
  "distinct (dict_keys d) \<Longrightarrow>
   distinct (dict_keys
     (fold (\<lambda>(c, n, avg) categories. dict_set categories (opt_str c) (category_entry n avg))
        groups d)) \<and>
   set (dict_keys
     (fold (\<lambda>(c, n, avg) categories. dict_set categories (opt_str c) (category_entry n avg))
        groups d)) = set (dict_keys d) \<union> opt_str ` fst ` set groups"
proof (induction groups arbitrary: d)
  case Nil
  then show ?case by simp
next
  case (Cons g groups)
  obtain c n avg where g: "g = (c, n, avg)" by (cases g)
  from Cons.prems have "distinct (dict_keys (dict_set d (opt_str c) (category_entry n avg)))"
    by (simp add: dict_keys_set)
  from Cons.IH [OF this] g show ?case
    by (auto simp: dict_keys_set split: if_splits)
qed

text \<open>
  Claim C4. The member \<open>feedback_by_category\<close> of the metrics has one key for each
  category that occurs among the selected rows and no other key (a category with no
  selected row is not listed). When the selected rows all carry a score, as every stored
  row does, the entry of a category holds the number of its rows and the arithmetic mean
  of their scores.
\<close>

theorem feedback_by_category_exact:
  assumes "build_filtered_query a = Inr (Some q)"
    and "execute s q = Inr rows"
    and "\<forall>f \<in> set rows. sentiment_score f \<noteq> None"
  shows "\<exists>body categories.
           get_metrics s a = Inr (body, 200) \<and>
           body_field (body, 200) ''feedback_by_category'' = Some (PDict categories) \<and>
           distinct (dict_keys categories) \<and>
           set (dict_keys categories) = opt_str ` category ` set rows \<and>
           (\<forall>c \<in> category ` set rows.
              dict_get categories (opt_str c) =
                Some (PDict
                  [(PStr ''count'', PInt (int (length (filter (\<lambda>f. category f = c) rows)))),
                   (PStr ''average_sentiment_score'',
                    PFloat (sum_list (map (the \<circ> sentiment_score)
                                       (filter (\<lambda>f. category f = c) rows)) /
                            real (length (filter (\<lambda>f. category f = c) rows))))]))"
proof -
  let ?cats = "categories_of (category_metrics rows)"
  have d: "distinct (map fst (category_metrics rows))"
    by (simp add: category_metrics_def comp_def)
  have fsts: "fst ` set (category_metrics rows) = category ` set rows"
    by (force simp: category_metrics_def)
  have keys: "distinct (dict_keys ?cats) \<and> set (dict_keys ?cats) = opt_str ` category ` set rows"
    using categories_fold_keys [of "[]" "category_metrics rows"] fsts
    by (simp add: categories_of_def dict_keys_def)
  have entry: "dict_get ?cats (opt_str c) =
      Some (PDict
        [(PStr ''count'', PInt (int (length (filter (\<lambda>f. category f = c) rows)))),
         (PStr ''average_sentiment_score'',
          PFloat (sum_list (map (the \<circ> sentiment_score) (filter (\<lambda>f. category f = c) rows)) /
                  real (length (filter (\<lambda>f. category f = c) rows))))])"
    if c: "c \<in> category ` set rows" for c
  proof -
    let ?group = "filter (\<lambda>f. category f = c) rows"
    have mem: "(c, length ?group, sql_avg (map sentiment_score ?group)) \<in> set (category_metrics rows)"
      using c by (auto simp: category_metrics_def)
    have ne: "?group \<noteq> []"
      using c by (rule group_rows_nonempty)
    have nn: "\<forall>f \<in> set ?group. sentiment_score f \<noteq> None"
      using assms(3) by simp
    have "dict_get ?cats (opt_str c) =
            Some (category_entry (length ?group) (sql_avg (map sentiment_score ?group)))"
      unfolding categories_of_def by (rule categories_fold_get [OF d mem])
    then show ?thesis
      by (simp add: category_entry_def sql_avg_non_null [OF nn ne] opt_float_def)
  qed
  have "get_metrics s a =
          Inr (PDict
                 [(PStr ''total_feedback'', PInt (int (length rows))),
                  (PStr ''feedback_by_sentiment'', PDict (sentiments_of (sentiment_counts rows))),
                  (PStr ''feedback_by_category'', PDict ?cats)], 200)"
    using assms(1,2) by (simp add: get_metrics_def)
  moreover have "body_field
      (PDict
         [(PStr ''total_feedback'', PInt (int (length rows))),
          (PStr ''feedback_by_sentiment'', PDict (sentiments_of (sentiment_counts rows))),
          (PStr ''feedback_by_category'', PDict ?cats)], 200)
      ''feedback_by_category'' = Some (PDict ?cats)"
    by (simp add: body_field_def)
  ultimately show ?thesis
    using keys entry by blast
qed

text \<open>Three rows of category Speed with the scores 0.5, -0.5 and 0: the only key is
  Speed, its count is 3 and its mean is 0.\<close>

theorem feedback_by_category_exact_witness:
  "\<exists>body categories.
     get_metrics
       \<lparr>feedback_table =
          [\<lparr>fb_id = 1, platform = Some ''web'', fb_text = Some ''Slow'',
           timestamp = \<lparr>year = 2024, month = 1, day = 1, hour = 12, minute = 0,
                        second = 0, microsecond = 0\<rparr>,
           category = Some ''Speed'', sentiment = Some ''Positive'',
           sentiment_score = Some 0.5, store_id = None, status = Some ''New''\<rparr>,
          \<lparr>fb_id = 2, platform = Some ''web'', fb_text = Some ''Slow'',
           timestamp = \<lparr>year = 2024, month = 1, day = 2, hour = 12, minute = 0,
                        second = 0, microsecond = 0\<rparr>,
           category = Some ''Speed'', sentiment = Some ''Negative'',
           sentiment_score = Some (- 0.5), store_id = None, status = Some ''New''\<rparr>,
          \<lparr>fb_id = 3, platform = Some ''web'', fb_text = Some ''Slow'',
           timestamp = \<lparr>year = 2024, month = 1, day = 3, hour = 12, minute = 0,
                        second = 0, microsecond = 0\<rparr>,
           category = Some ''Speed'', sentiment = Some ''Neutral'',
           sentiment_score = Some 0, store_id = None, status = Some ''New''\<rparr>],
        store_table = [], emitted = []\<rparr>
       \<lparr>a_start = None, a_end = None, a_store_id = None, a_area = None, a_status = None\<rparr> = Inr (body, 200) \<and>
     body_field (body, 200) ''feedback_by_category'' = Some (PDict categories) \<and>
     set (dict_keys categories) = {PStr ''Speed''} \<and>
     dict_get categories (PStr ''Speed'') =
       Some (PDict [(PStr ''count'', PInt 3), (PStr ''average_sentiment_score'', PFloat 0)])"
proof -
  let ?rows = "[\<lparr>fb_id = 1, platform = Some ''web'', fb_text = Some ''Slow'',
       timestamp = \<lparr>year = 2024, month = 1, day = 1, hour = 12, minute = 0,
                    second = 0, microsecond = 0\<rparr>,
       category = Some ''Speed'', sentiment = Some ''Positive'',
       sentiment_score = Some 0.5, store_id = None, status = Some ''New''\<rparr>,
      \<lparr>fb_id = 2, platform = Some ''web'', fb_text = Some ''Slow'',
       timestamp = \<lparr>year = 2024, month = 1, day = 2, hour = 12, minute = 0,
                    second = 0, microsecond = 0\<rparr>,
       category = Some ''Speed'', sentiment = Some ''Negative'',
       sentiment_score = Some (- 0.5), store_id = None, status = Some ''New''\<rparr>,
      \<lparr>fb_id = 3, platform = Some ''web'', fb_text = Some ''Slow'',
       timestamp = \<lparr>year = 2024, month = 1, day = 3, hour = 12, minute = 0,
                    second = 0, microsecond = 0\<rparr>,
       category = Some ''Speed'', sentiment = Some ''Neutral'',
       sentiment_score = Some 0, store_id = None, status = Some ''New''\<rparr>]"
  let ?s = "\<lparr>feedback_table = ?rows, store_table = [], emitted = []\<rparr>"
  let ?a = "\<lparr>a_start = None, a_end = None, a_store_id = None, a_area = None, a_status = None\<rparr>"
  have b: "build_filtered_query ?a = Inr (Some [])"
    by (simp add: build_filtered_query_def truthy_def)
  have e: "execute ?s [] = Inr ?rows"
    by (simp add: execute_def)
  have nn: "\<forall>f \<in> set ?rows. sentiment_score f \<noteq> None"
    by (simp del: not_None_eq)
  from feedback_by_category_exact [OF b e nn]
  obtain body categories where
    run: "get_metrics ?s ?a = Inr (body, 200)" and
    field: "body_field (body, 200) ''feedback_by_category'' = Some (PDict categories)" and
    keys: "set (dict_keys categories) = opt_str ` category ` set ?rows" and
    entries: "\<forall>c \<in> category ` set ?rows.
              dict_get categories (opt_str c) =
                Some (PDict
                  [(PStr ''count'', PInt (int (length (filter (\<lambda>f. category f = c) ?rows)))),
                   (PStr ''average_sentiment_score'',
                    PFloat (sum_list (map (the \<circ> sentiment_score)
                                       (filter (\<lambda>f. category f = c) ?rows)) /
                            real (length (filter (\<lambda>f. category f = c) ?rows))))])"
    by blast
  from keys have k: "set (dict_keys categories) = {PStr ''Speed''}"
    by (simp add: opt_str_def)
  from entries have v: "dict_get categories (PStr ''Speed'') =
       Some (PDict [(PStr ''count'', PInt 3), (PStr ''average_sentiment_score'', PFloat 0)])"
    by (simp add: opt_str_def)
  show ?thesis
    apply (rule exI [of _ body])
    apply (rule exI [of _ categories])
    apply (rule conjI [OF run])
    apply (rule conjI [OF field])
    apply (rule conjI [OF k])
    apply (rule v)
    done
qed

subsection \<open>The daily trend\<close>









subsection \<open>Fixed-width decimal texts and their order\<close>

lemma digit_char_less:
  "i < 10 \<Longrightarrow> j < 10 \<Longrightarrow> (digit_char i < digit_char j) = (i < j)"
  by (simp add: digit_char_def less_char_def)

lemma digit_char_eq:
  assumes "i < 10" and "j < 10"
  shows "(digit_char i = digit_char j) = (i = j)"
proof
  assume "digit_char i = digit_char j"
  then have "\<not> digit_char i < digit_char j" "\<not> digit_char j < digit_char i"
    by simp_all
  with digit_char_less [OF assms] digit_char_less [OF assms(2,1)]
  show "i = j" by linarith
qed simp

lemma digit_char_0: "digit_char 0 = CHR ''0''"
  by code_simp

lemma length_digits: "length (digits k n) = k"
  by (induction k arbitrary: n) auto

lemma digits_0: "digits k 0 = replicate k (CHR ''0'')"
  by (induction k) (auto simp: digit_char_0 replicate_append_same)

lemma length_str_nat: "n < 10 ^ k \<Longrightarrow> 0 < k \<Longrightarrow> length (str_nat n) \<le> k"
proof (induction k arbitrary: n)
  case 0
  then show ?case by simp
next
  case (Suc k)
  show ?case
  proof (cases "n < 10")
    case True
    then show ?thesis by (simp add: str_nat.simps)
  next
    case False
    with Suc.prems have "n div 10 < 10 ^ k" "0 < k"
      by (auto simp: less_mult_imp_div_less mult.commute intro: Suc_lessI gr0I)
    from Suc.IH [OF this] False show ?thesis
      by (subst str_nat.simps) simp
  qed
qed

lemma zfill_str_nat: "n < 10 ^ k \<Longrightarrow> 0 < k \<Longrightarrow> zfill k (str_nat n) = digits k n"
proof (induction k arbitrary: n)
  case 0
  then show ?case by simp
next
  case (Suc k)
  show ?case
  proof (cases "n < 10")
    case True
    then show ?thesis
      by (simp add: str_nat.simps zfill_def digits_0)
  next
    case False
    with Suc.prems have small: "n div 10 < 10 ^ k" "0 < k"
      by (auto simp: less_mult_imp_div_less mult.commute intro: Suc_lessI gr0I)
    have "zfill (Suc k) (str_nat n) =
          zfill k (str_nat (n div 10)) @ [digit_char (n mod 10)]"
      using False length_str_nat [OF small]
      by (subst str_nat.simps) (simp add: zfill_def Suc_diff_le)
    with Suc.IH [OF small] show ?thesis by simp
  qed
qed

lemma append_less_same_length:
  "length a = length c \<Longrightarrow> (a @ b < c @ d) = (a < c \<or> (a = c \<and> b < d))"
  by (induction a c rule: list_induct2) auto

lemma digits_eq: "n < 10 ^ k \<Longrightarrow> m < 10 ^ k \<Longrightarrow> (digits k n = digits k m) = (n = m)"
proof (induction k arbitrary: n m)
  case 0
  then show ?case by simp
next
  case (Suc k)
  then have "n div 10 < 10 ^ k" "m div 10 < 10 ^ k"
    by (auto simp: less_mult_imp_div_less mult.commute)
  from Suc.IH [OF this] show ?case
    by (auto simp: length_digits digit_char_eq) (metis div_mult_mod_eq)
qed

lemma lex_base10:
  "b < 10 \<Longrightarrow> d < 10 \<Longrightarrow> ((a::nat) * 10 + b < c * 10 + d) = (a < c \<or> (a = c \<and> b < d))"
  by arith

lemma div_mod_less:
  "((n::nat) < m) = (n div 10 < m div 10 \<or> (n div 10 = m div 10 \<and> n mod 10 < m mod 10))"
  using lex_base10 [of "n mod 10" "m mod 10" "n div 10" "m div 10"] by simp

lemma digits_less: "n < 10 ^ k \<Longrightarrow> m < 10 ^ k \<Longrightarrow> (digits k n < digits k m) = (n < m)"
proof (induction k arbitrary: n m)
  case 0
  then show ?case by simp
next
  case (Suc k)
  then have small: "n div 10 < 10 ^ k" "m div 10 < 10 ^ k"
    by (auto simp: less_mult_imp_div_less mult.commute)
  have "(digits (Suc k) n < digits (Suc k) m) =
        (digits k (n div 10) < digits k (m div 10) \<or>
         (digits k (n div 10) = digits k (m div 10) \<and>
          digit_char (n mod 10) < digit_char (m mod 10)))"
    by (simp add: append_less_same_length length_digits)
  also have "\<dots> = (n div 10 < m div 10 \<or> (n div 10 = m div 10 \<and> n mod 10 < m mod 10))"
    by (simp only: Suc.IH [OF small] digits_eq [OF small] digit_char_less [of "n mod 10" "m mod 10", simplified])
  also have "\<dots> = (n < m)"
    by (rule div_mod_less [symmetric])
  finally show ?case .
qed
subsection \<open>The order of stored timestamps\<close>

lemma append_eq_same_length:
  "length a = length c \<Longrightarrow> (a @ b = c @ d) = (a = c \<and> b = d)"
  by simp

lemma strftime_ymd_digits:
  assumes "year d < 10000" and "month d < 100" and "day d < 100"
  shows "strftime_ymd d =
         digits 4 (year d) @ CHR ''-'' # digits 2 (month d) @ CHR ''-'' # digits 2 (day d)"
  using assms by (simp add: strftime_ymd_def zfill_str_nat)

lemma length_strftime_ymd:
  "year d < 10000 \<Longrightarrow> month d < 100 \<Longrightarrow> day d < 100 \<Longrightarrow> length (strftime_ymd d) = 10"
  by (simp add: strftime_ymd_digits length_digits)

lemma yyyymmdd_less:
  assumes "month a < 100" "day a < 100" "month b < 100" "day b < 100"
  shows "(yyyymmdd a < yyyymmdd b) =
         (year a < year b \<or>
          (year a = year b \<and> (month a < month b \<or> (month a = month b \<and> day a < day b))))"
  using assms unfolding yyyymmdd_def by arith

lemma yyyymmdd_eq:
  assumes "month a < 100" "day a < 100" "month b < 100" "day b < 100"
  shows "(yyyymmdd a = yyyymmdd b) = (year a = year b \<and> month a = month b \<and> day a = day b)"
proof -
  have "(yyyymmdd a = yyyymmdd b) =
        (\<not> yyyymmdd a < yyyymmdd b \<and> \<not> yyyymmdd b < yyyymmdd a)"
    by linarith
  also have "\<dots> = (year a = year b \<and> month a = month b \<and> day a = day b)"
    unfolding yyyymmdd_less [OF assms] yyyymmdd_less [OF assms(3,4,1,2)]
    by (auto simp: not_less)
  finally show ?thesis .
qed

lemma strftime_ymd_less:
  assumes "year a < 10000" "month a < 100" "day a < 100"
    and "year b < 10000" "month b < 100" "day b < 100"
  shows "(strftime_ymd a < strftime_ymd b) = (yyyymmdd a < yyyymmdd b)"
  using assms
  by (simp add: strftime_ymd_digits append_less_same_length length_digits digits_less
      digits_eq yyyymmdd_less)

lemma strftime_ymd_eq:
  assumes "year a < 10000" "month a < 100" "day a < 100"
    and "year b < 10000" "month b < 100" "day b < 100"
  shows "(strftime_ymd a = strftime_ymd b) = (yyyymmdd a = yyyymmdd b)"
  using assms
  by (simp add: strftime_ymd_digits length_digits digits_eq yyyymmdd_eq)

text \<open>No time of day sorts before midnight.\<close>

lemma midnight_least:
  assumes "hour t < 100" "minute t < 100" "second t < 100" "microsecond t < 1000000"
  shows "\<not> ('' '' @ zfill 2 (str_nat (hour t)) @ '':'' @ zfill 2 (str_nat (minute t)) @ '':'' @
            zfill 2 (str_nat (second t)) @ ''.'' @ zfill 6 (str_nat (microsecond t))
            < '' 00:00:00.000000'')"
proof -
  have z2: "''00'' = digits 2 0" and z6: "''000000'' = digits 6 0"
    by (simp_all add: digits_0 eval_nat_numeral)
  have "'' 00:00:00.000000'' =
        CHR '' '' # digits 2 0 @ CHR '':'' # digits 2 0 @ CHR '':'' # digits 2 0 @ CHR ''.'' #
        digits 6 0"
    unfolding z2 [symmetric] z6 [symmetric] by simp
  then show ?thesis
    using assms
    by (simp add: zfill_str_nat append_less_same_length length_digits digits_less digits_eq)
qed

lemma bind_date_le_storage:
  assumes "year d < 10000" "month d < 100" "day d < 100"
    and "year t < 10000" "month t < 100" "day t < 100"
    and "hour t < 100" "minute t < 100" "second t < 100" "microsecond t < 1000000"
  shows "(bind_date d \<le> storage_format t) = (yyyymmdd d \<le> yyyymmdd t)"
    and "(storage_format t < bind_date d) = (yyyymmdd t < yyyymmdd d)"
proof -
  let ?time = "'' '' @ zfill 2 (str_nat (hour t)) @ '':'' @ zfill 2 (str_nat (minute t)) @ '':'' @
            zfill 2 (str_nat (second t)) @ ''.'' @ zfill 6 (str_nat (microsecond t))"
  have s: "storage_format t = strftime_ymd t @ ?time"
    by (simp add: storage_format_def)
  have b: "bind_date d = strftime_ymd d @ '' 00:00:00.000000''"
    by (simp add: bind_date_def)
  have len: "length (strftime_ymd d) = length (strftime_ymd t)"
    using assms by (simp add: length_strftime_ymd)
  have least: "\<not> ?time < '' 00:00:00.000000''"
    using assms(7-10) by (rule midnight_least)
  have lt: "(strftime_ymd t < strftime_ymd d) = (yyyymmdd t < yyyymmdd d)"
    using assms(1-6) by (simp add: strftime_ymd_less)
  have eq: "(strftime_ymd t = strftime_ymd d) = (yyyymmdd t = yyyymmdd d)"
    using assms(1-6) by (simp add: strftime_ymd_eq)
  show less: "(storage_format t < bind_date d) = (yyyymmdd t < yyyymmdd d)"
    unfolding s b append_less_same_length [OF len [symmetric]]
    using least lt by simp
  have "(bind_date d \<le> storage_format t) = (\<not> storage_format t < bind_date d)"
    by (simp add: not_less)
  also have "\<dots> = (yyyymmdd d \<le> yyyymmdd t)"
    unfolding less by (simp add: not_less)
  finally show "(bind_date d \<le> storage_format t) = (yyyymmdd d \<le> yyyymmdd t)" .
qed

subsection \<open>The day after\<close>

lemma days_in_month_le_31: "days_in_month y m \<le> 31"
  by (simp add: days_in_month_def)

lemma yyyymmdd_le:
  assumes "month a < 100" "day a < 100" "month b < 100" "day b < 100"
  shows "(yyyymmdd a \<le> yyyymmdd b) =
         (year a < year b \<or>
          (year a = year b \<and> (month a < month b \<or> (month a = month b \<and> day a \<le> day b))))"
proof -
  have "(yyyymmdd a \<le> yyyymmdd b) = (yyyymmdd a < yyyymmdd b \<or> yyyymmdd a = yyyymmdd b)"
    by linarith
  also have "\<dots> =
         (year a < year b \<or>
          (year a = year b \<and> (month a < month b \<or> (month a = month b \<and> day a \<le> day b))))"
    unfolding yyyymmdd_less [OF assms] yyyymmdd_eq [OF assms]
    by (auto simp: le_less)
  finally show ?thesis .
qed

lemma valid_date_bounds:
  assumes "valid_date (year t) (month t) (day t)"
  shows "1 \<le> month t" "month t \<le> 12" "1 \<le> day t" "day t \<le> days_in_month (year t) (month t)"
    "day t \<le> 31" "month t < 100" "day t < 100" "year t < 10000"
  using assms days_in_month_le_31 [of "year t" "month t"]
  by (simp_all add: valid_date_def)

lemma add_one_day_next:
  assumes "valid_date (year e) (month e) (day e)"
    and "valid_date (year t) (month t) (day t)"
    and "add_one_day e = Inr n"
  shows "(yyyymmdd t < yyyymmdd n) = (yyyymmdd t \<le> yyyymmdd e) \<and>
         year n < 10000 \<and> month n < 100 \<and> day n < 100"
proof -
  note be = valid_date_bounds [OF assms(1)]
  note bt = valid_date_bounds [OF assms(2)]
  have le: "(yyyymmdd t \<le> yyyymmdd e) =
         (year t < year e \<or>
          (year t = year e \<and> (month t < month e \<or> (month t = month e \<and> day t \<le> day e))))"
    by (rule yyyymmdd_le [OF bt(6,7) be(6,7)])
  consider
      (same) "day e < days_in_month (year e) (month e)"
        "year n = year e" "month n = month e" "day n = day e + 1"
    | (month) "day e = days_in_month (year e) (month e)" "month e < 12"
        "year n = year e" "month n = month e + 1" "day n = 1"
    | (year) "day e = days_in_month (year e) (month e)" "month e = 12" "year e < 9999"
        "year n = year e + 1" "month n = 1" "day n = 1"
    using assms(3) be(2,4)
    by (auto simp: add_one_day_def split: if_splits)
  then show ?thesis
  proof cases
    case same
    from same be have bn: "month n < 100" "day n < 100" "year n < 10000" by simp_all
    have lt: "(yyyymmdd t < yyyymmdd n) =
         (year t < year n \<or>
          (year t = year n \<and> (month t < month n \<or> (month t = month n \<and> day t < day n))))"
      by (rule yyyymmdd_less [OF bt(6,7) bn(1,2)])
    show ?thesis
      unfolding lt le using same(2-4) bn by auto
  next
    case month
    from month be have bn: "month n < 100" "day n < 100" "year n < 10000" by simp_all
    have lt: "(yyyymmdd t < yyyymmdd n) =
         (year t < year n \<or>
          (year t = year n \<and> (month t < month n \<or> (month t = month n \<and> day t < day n))))"
      by (rule yyyymmdd_less [OF bt(6,7) bn(1,2)])
    have last: "day t \<le> day e" if "month t = month e" "year t = year e"
      using that month(1) bt(4) by simp
    show ?thesis
      unfolding lt le using month(3-5) bn bt(3) last by auto
  next
    case year
    from year be have bn: "month n < 100" "day n < 100" "year n < 10000" by simp_all
    have lt: "(yyyymmdd t < yyyymmdd n) =
         (year t < year n \<or>
          (year t = year n \<and> (month t < month n \<or> (month t = month n \<and> day t < day n))))"
      by (rule yyyymmdd_less [OF bt(6,7) bn(1,2)])
    have de: "day e = 31"
      using year(1,2) by (simp add: days_in_month_def)
    show ?thesis
      unfolding lt le using year(2,4-6) de bn bt(1,2,3,5) by auto
  qed
qed

subsection \<open>The date range of a filter\<close>

text \<open>
  The filter of a date range, for every end date but the last day of the calendar. When \<open>start\<close> and
  \<open>end\<close> are dates that \<open>strptime\<close> accepts, a query of the two bounds is
  built, and on a table of timestamps that the clock can return it selects exactly the
  rows whose day lies between the start date and the end date, both included: the
  comparison of the stored texts with midnight of \<open>start\<close> and with midnight of the
  day after \<open>end\<close> is the comparison of the days.
\<close>

theorem date_range_keeps_whole_days:
  assumes "strptime_date sv = Some ds"
    and "strptime_date ev = Some de"
    and "de \<noteq> \<lparr>year = 9999, month = 12, day = 31\<rparr>"
    and "\<forall>f \<in> set (feedback_table s). valid_timestamp (timestamp f)"
  shows "\<exists>next_day.
           add_one_day de = Inr next_day \<and>
           build_filtered_query
             \<lparr>a_start = Some sv, a_end = Some ev, a_store_id = None, a_area = None,
              a_status = None\<rparr> = Inr (Some [TimestampGe ds, TimestampLt next_day]) \<and>
           execute s [TimestampGe ds, TimestampLt next_day] =
             Inr (filter (\<lambda>f. bind_date ds \<le> storage_format (timestamp f) \<and>
                              storage_format (timestamp f) < bind_date next_day)
                    (feedback_table s)) \<and>
           execute s [TimestampGe ds, TimestampLt next_day] =
             Inr (filter (\<lambda>f. yyyymmdd ds \<le> yyyymmdd (timestamp f) \<and>
                              yyyymmdd (timestamp f) \<le> yyyymmdd de)
                    (feedback_table s))"
proof -
  note vs = strptime_date_valid [OF assms(1)]
  note ve = strptime_date_valid [OF assms(2)]
  note bs = valid_date_bounds [OF vs]
  from assms(1,2) have ne: "sv \<noteq> []" "ev \<noteq> []"
    by (auto dest: strptime_date_nonempty)
  obtain n where n: "add_one_day de = Inr n"
    using add_one_day_overflow [OF ve] assms(3) by (cases "add_one_day de") auto
  have build: "build_filtered_query
             \<lparr>a_start = Some sv, a_end = Some ev, a_store_id = None, a_area = None,
              a_status = None\<rparr> = Inr (Some [TimestampGe ds, TimestampLt n])"
    using assms(1,2) ne n by (simp add: build_filtered_query_def truthy_def)
  have texts: "execute s [TimestampGe ds, TimestampLt n] =
             Inr (filter (\<lambda>f. bind_date ds \<le> storage_format (timestamp f) \<and>
                              storage_format (timestamp f) < bind_date n)
                    (feedback_table s))"
    by (simp add: execute_def conj_commute)
  have days: "(bind_date ds \<le> storage_format (timestamp f) \<and>
               storage_format (timestamp f) < bind_date n) =
              (yyyymmdd ds \<le> yyyymmdd (timestamp f) \<and>
               yyyymmdd (timestamp f) \<le> yyyymmdd de)"
    if f: "f \<in> set (feedback_table s)" for f
  proof -
    from assms(4) f have vt: "valid_date (year (timestamp f)) (month (timestamp f)) (day (timestamp f))"
      and tm: "hour (timestamp f) < 100" "minute (timestamp f) < 100" "second (timestamp f) < 100"
        "microsecond (timestamp f) < 1000000"
      by (auto simp: valid_timestamp_def)
    note bt = valid_date_bounds [OF vt]
    from add_one_day_next [OF ve vt n]
    have nx: "(yyyymmdd (timestamp f) < yyyymmdd n) = (yyyymmdd (timestamp f) \<le> yyyymmdd de)"
      and bn: "year n < 10000" "month n < 100" "day n < 100"
      by simp_all
    have "(bind_date ds \<le> storage_format (timestamp f)) = (yyyymmdd ds \<le> yyyymmdd (timestamp f))"
      by (rule bind_date_le_storage(1) [OF bs(8,6,7) bt(8,6,7) tm])
    moreover have "(storage_format (timestamp f) < bind_date n) =
        (yyyymmdd (timestamp f) < yyyymmdd n)"
      by (rule bind_date_le_storage(2) [OF bn bt(8,6,7) tm])
    ultimately show ?thesis using nx by simp
  qed
  have "filter (\<lambda>f. bind_date ds \<le> storage_format (timestamp f) \<and>
                      storage_format (timestamp f) < bind_date n) (feedback_table s) =
        filter (\<lambda>f. yyyymmdd ds \<le> yyyymmdd (timestamp f) \<and>
                      yyyymmdd (timestamp f) \<le> yyyymmdd de) (feedback_table s)"
    by (rule filter_cong [OF refl]) (rule days)
  with texts have "execute s [TimestampGe ds, TimestampLt n] =
             Inr (filter (\<lambda>f. yyyymmdd ds \<le> yyyymmdd (timestamp f) \<and>
                              yyyymmdd (timestamp f) \<le> yyyymmdd de)
                    (feedback_table s))"
    by simp
  with n build texts show ?thesis by blast
qed

text \<open>The request \<open>start=2024-03-10&end=2024-03-10\<close> on two rows, of noon of that
  day and of noon of the next: the first one is selected.\<close>

theorem date_range_keeps_whole_days_witness:
  "\<exists>next_day.
     build_filtered_query
       \<lparr>a_start = Some ''2024-03-10'', a_end = Some ''2024-03-10'', a_store_id = None,
        a_area = None, a_status = None\<rparr> =
       Inr (Some [TimestampGe \<lparr>year = 2024, month = 3, day = 10\<rparr>, TimestampLt next_day]) \<and>
     execute
       \<lparr>feedback_table =
          [\<lparr>fb_id = 2, platform = Some ''web'', fb_text = Some ''Slow'',
         timestamp = \<lparr>year = 2024, month = 3, day = 10, hour = 12, minute = 0,
                      second = 0, microsecond = 0\<rparr>,
         category = Some ''Speed'', sentiment = Some ''Positive'',
         sentiment_score = Some 0.5, store_id = None, status = Some ''New''\<rparr>,
           \<lparr>fb_id = 3, platform = Some ''web'', fb_text = Some ''Slow'',
         timestamp = \<lparr>year = 2024, month = 3, day = 11, hour = 12, minute = 0,
                      second = 0, microsecond = 0\<rparr>,
         category = Some ''Speed'', sentiment = Some ''Negative'',
         sentiment_score = Some (- 0.5), store_id = None, status = Some ''New''\<rparr>],
        store_table = [], emitted = []\<rparr>
       [TimestampGe \<lparr>year = 2024, month = 3, day = 10\<rparr>, TimestampLt next_day] =
       Inr [\<lparr>fb_id = 2, platform = Some ''web'', fb_text = Some ''Slow'',
         timestamp = \<lparr>year = 2024, month = 3, day = 10, hour = 12, minute = 0,
                      second = 0, microsecond = 0\<rparr>,
         category = Some ''Speed'', sentiment = Some ''Positive'',
         sentiment_score = Some 0.5, store_id = None, status = Some ''New''\<rparr>]"
proof -
  let ?r1 = "\<lparr>fb_id = 2, platform = Some ''web'', fb_text = Some ''Slow'',
         timestamp = \<lparr>year = 2024, month = 3, day = 10, hour = 12, minute = 0,
                      second = 0, microsecond = 0\<rparr>,
         category = Some ''Speed'', sentiment = Some ''Positive'',
         sentiment_score = Some 0.5, store_id = None, status = Some ''New''\<rparr>"
  let ?r2 = "\<lparr>fb_id = 3, platform = Some ''web'', fb_text = Some ''Slow'',
         timestamp = \<lparr>year = 2024, month = 3, day = 11, hour = 12, minute = 0,
                      second = 0, microsecond = 0\<rparr>,
         category = Some ''Speed'', sentiment = Some ''Negative'',
         sentiment_score = Some (- 0.5), store_id = None, status = Some ''New''\<rparr>"
  let ?s = "\<lparr>feedback_table = [?r1, ?r2], store_table = [], emitted = []\<rparr>"
  let ?d = "\<lparr>year = 2024, month = 3, day = 10\<rparr>"
  have p: "strptime_date ''2024-03-10'' = Some ?d"
    by (simp add: strptime_date_def is_digit_def digit_val_def month_of_def day_of_def
        valid_date_def days_in_month_def is_leap_def)
  have m: "?d \<noteq> \<lparr>year = 9999, month = 12, day = 31\<rparr>"
    by simp
  have v: "\<forall>f \<in> set (feedback_table ?s). valid_timestamp (timestamp f)"
    by (simp add: valid_timestamp_def valid_date_def days_in_month_def)
  from date_range_keeps_whole_days [OF p p m v] obtain n where
    b: "build_filtered_query
       \<lparr>a_start = Some ''2024-03-10'', a_end = Some ''2024-03-10'', a_store_id = None,
        a_area = None, a_status = None\<rparr> = Inr (Some [TimestampGe ?d, TimestampLt n])" and
    e: "execute ?s [TimestampGe ?d, TimestampLt n] =
             Inr (filter (\<lambda>f. yyyymmdd ?d \<le> yyyymmdd (timestamp f) \<and>
                              yyyymmdd (timestamp f) \<le> yyyymmdd ?d)
                    (feedback_table ?s))"
    by blast
  have "filter (\<lambda>f. yyyymmdd ?d \<le> yyyymmdd (timestamp f) \<and>
                    yyyymmdd (timestamp f) \<le> yyyymmdd ?d) (feedback_table ?s) = [?r1]"
    by (simp add: yyyymmdd_def)
  with e have e': "execute ?s [TimestampGe ?d, TimestampLt n] = Inr [?r1]"
    by simp
  show ?thesis
    apply (rule exI [of _ n])
    apply (rule conjI [OF b])
    apply (rule e')
    done
qed

subsection \<open>The rows a query can select\<close>

lemma apply_clause_subset: "set (apply_clause s c rows) \<subseteq> set rows"
  by (cases c) auto

lemma fold_apply_clause_subset: "set (fold (apply_clause s) q rows) \<subseteq> set rows"
proof (induction q arbitrary: rows)
  case Nil
  show ?case by simp
next
  case (Cons c q)
  have "set (fold (apply_clause s) q (apply_clause s c rows)) \<subseteq> set (apply_clause s c rows)"
    by (rule Cons.IH)
  also have "\<dots> \<subseteq> set rows"
    by (rule apply_clause_subset)
  finally show ?case by simp
qed

lemma execute_subset: "execute s q = Inr rows \<Longrightarrow> set rows \<subseteq> set (feedback_table s)"
  using fold_apply_clause_subset [of s q "feedback_table s"]
  by (auto simp: execute_def split: if_splits)

text \<open>
  In every state the service can reach, the rows that any query selects are stored rows,
  so each of them carries a category, a sentiment and a score: the views of the metrics
  and of the trend have no null category and no null score.
\<close>

theorem reachable_view_annotated:
  assumes "reachable s"
    and "execute s q = Inr rows"
  shows "\<forall>f \<in> set rows.
           category f \<noteq> None \<and> sentiment f \<noteq> None \<and> sentiment_score f \<noteq> None"
proof
  fix f
  assume "f \<in> set rows"
  with execute_subset [OF assms(2)] have "f \<in> set (feedback_table s)" by blast
  with reachable_annotated [OF assms(1)] have "fully_annotated f"
    by (simp add: list_all_iff)
  then show "category f \<noteq> None \<and> sentiment f \<noteq> None \<and> sentiment_score f \<noteq> None"
    by (simp add: fully_annotated_def)
qed

theorem reachable_view_annotated_witness:
  "\<exists>s rows.
     reachable s \<and> execute s [StatusEq ''New''] = Inr rows \<and> rows \<noteq> [] \<and>
     list_all (\<lambda>f. category f \<noteq> None \<and> sentiment f \<noteq> None \<and> sentiment_score f \<noteq> None)
       rows"
proof -
  let ?row = "\<lparr>fb_id = 1, platform = Some ''web'',
             fb_text = Some ''Service was terrible and slow'',
             timestamp = \<lparr>year = 2024, month = 1, day = 1, hour = 12, minute = 0,
                          second = 0, microsecond = 0\<rparr>,
             category = Some ''Ambience'', sentiment = Some ''Negative'',
             sentiment_score = Some (- 0.5), store_id = None, status = Some ''New''\<rparr>"
  let ?s0 = "\<lparr>feedback_table = [?row], store_table = [], emitted = [new_feedback_event 1]\<rparr>"
  have r0: "reachable ?s0"
    by (rule reachable_add_feedback [OF reachable_init one_ingestion])
  have e: "execute ?s0 [StatusEq ''New''] = Inr [?row]"
    by (simp add: execute_def)
  have ne: "[?row] \<noteq> []" by simp
  from reachable_view_annotated [OF r0 e]
  have all: "list_all (\<lambda>f. category f \<noteq> None \<and> sentiment f \<noteq> None \<and> sentiment_score f \<noteq> None)
       [?row]"
    unfolding list_all_iff .
  show ?thesis
    apply (rule exI [of _ ?s0])
    apply (rule exI [of _ "[?row]"])
    apply (rule conjI [OF r0])
    apply (rule conjI [OF e])
    apply (rule conjI [OF ne])
    apply (rule all)
    done
qed

end
